theory Spec2Isabelle
  imports Complex_Main
begin

section \<open>Go strings and the library functions the program calls\<close>

text \<open>
  A Go string is a sequence of bytes; \<^typ>\<open>string\<close> (a list of 8-bit characters) is
  used for it, so \<open>len(s)\<close> is \<^term>\<open>length s\<close> and \<open>s[i]\<close> is the byte at
  index \<open>i\<close>. Functions of package \<open>strings\<close> that work on runes are modelled on the
  UTF-8 bytes, as the library itself does.
\<close>

subsection \<open>White space\<close>

text \<open>The table \<open>asciiSpace\<close> of package \<open>strings\<close>: tab, line feed, vertical tab,
  form feed, carriage return and space.\<close>

definition asciiSpace :: "char \<Rightarrow> bool" where
  "asciiSpace c \<longleftrightarrow>
     c = CHR 0x09 \<or> c = CHR 0x0A \<or> c = CHR 0x0B \<or> c = CHR 0x0C \<or> c = CHR 0x0D \<or> c = CHR 0x20"

text \<open>
  \<open>unicode.IsSpace\<close> holds for the six ASCII characters above and for U+0085, U+00A0,
  U+1680, U+2000 to U+200A, U+2028, U+2029, U+202F, U+205F and U+3000. Their UTF-8
  encodings start with one of the lead bytes C2, E1, E2, E3, followed by continuation
  bytes only, so an occurrence in a byte string is always at a rune boundary.
  \<open>spaceWidth s\<close> is the number of bytes of the white-space rune \<open>s\<close> starts with, and
  0 when \<open>s\<close> does not start with one.
\<close>

definition e2Third :: "char \<Rightarrow> bool" where
  "e2Third e \<longleftrightarrow> (0x80 \<le> (of_char e :: nat) \<and> (of_char e :: nat) \<le> 0x8A)
     \<or> e = CHR 0xA8 \<or> e = CHR 0xA9 \<or> e = CHR 0xAF"

fun spaceWidth :: "string \<Rightarrow> nat" where
  "spaceWidth [] = 0"
| "spaceWidth (c # cs) =
     (if asciiSpace c then 1
      else if c = CHR 0xC2 then
        (case cs of d # _ \<Rightarrow> if d = CHR 0x85 \<or> d = CHR 0xA0 then 2 else 0 | [] \<Rightarrow> 0)
      else if c = CHR 0xE1 then
        (case cs of d # e # _ \<Rightarrow> if d = CHR 0x9A \<and> e = CHR 0x80 then 3 else 0 | _ \<Rightarrow> 0)
      else if c = CHR 0xE2 then
        (case cs of d # e # _ \<Rightarrow>
           if (d = CHR 0x80 \<and> e2Third e) \<or> (d = CHR 0x81 \<and> e = CHR 0x9F) then 3 else 0
         | _ \<Rightarrow> 0)
      else if c = CHR 0xE3 then
        (case cs of d # e # _ \<Rightarrow> if d = CHR 0x80 \<and> e = CHR 0x80 then 3 else 0 | _ \<Rightarrow> 0)
      else 0)"

text \<open>The same for the rune a string ends with; the argument is the reversed string.\<close>

fun spaceWidthRev :: "string \<Rightarrow> nat" where
  "spaceWidthRev [] = 0"
| "spaceWidthRev (c # cs) =
     (if asciiSpace c then 1
      else case cs of
        [] \<Rightarrow> 0
      | d # ds \<Rightarrow>
          if d = CHR 0xC2 \<and> (c = CHR 0x85 \<or> c = CHR 0xA0) then 2
          else (case ds of
            [] \<Rightarrow> 0
          | l # _ \<Rightarrow>
              if l = CHR 0xE1 \<and> d = CHR 0x9A \<and> c = CHR 0x80 then 3
              else if l = CHR 0xE2 \<and> ((d = CHR 0x80 \<and> e2Third c) \<or> (d = CHR 0x81 \<and> c = CHR 0x9F)) then 3
              else if l = CHR 0xE3 \<and> d = CHR 0x80 \<and> c = CHR 0x80 then 3
              else 0))"

text \<open>\<open>strings.TrimSpace\<close>: white-space runes are removed from the front, then from
  the back.\<close>

function trimLeftSpace :: "string \<Rightarrow> string" where
  "trimLeftSpace s = (if spaceWidth s = 0 then s else trimLeftSpace (drop (spaceWidth s) s))"
  by pat_completeness auto
termination
proof (relation "measure length")
  fix s :: string
  assume "spaceWidth s \<noteq> 0"
  moreover have "spaceWidth s \<le> length s" by (cases s) (auto split: list.splits)
  ultimately show "(drop (spaceWidth s) s, s) \<in> measure length" by simp
qed simp

declare trimLeftSpace.simps [simp del]

function trimLeftSpaceRev :: "string \<Rightarrow> string" where
  "trimLeftSpaceRev s =
     (if spaceWidthRev s = 0 then s else trimLeftSpaceRev (drop (spaceWidthRev s) s))"
  by pat_completeness auto
termination
proof (relation "measure length")
  fix s :: string
  assume "spaceWidthRev s \<noteq> 0"
  moreover have "spaceWidthRev s \<le> length s" by (cases s) (auto split: list.splits)
  ultimately show "(drop (spaceWidthRev s) s, s) \<in> measure length" by simp
qed simp

declare trimLeftSpaceRev.simps [simp del]

definition trimRightSpace :: "string \<Rightarrow> string" where
  "trimRightSpace s = rev (trimLeftSpaceRev (rev s))"

definition TrimSpace :: "string \<Rightarrow> string" where
  "TrimSpace s = trimRightSpace (trimLeftSpace s)"

subsection \<open>Searching and cutting\<close>

definition HasPrefix :: "string \<Rightarrow> string \<Rightarrow> bool" where
  "HasPrefix s p \<longleftrightarrow> take (length p) s = p"

definition HasSuffix :: "string \<Rightarrow> string \<Rightarrow> bool" where
  "HasSuffix s p \<longleftrightarrow> length p \<le> length s \<and> drop (length s - length p) s = p"

fun Contains :: "string \<Rightarrow> string \<Rightarrow> bool" where
  "Contains [] sub = (sub = [])"
| "Contains (c # cs) sub = (HasPrefix (c # cs) sub \<or> Contains cs sub)"

text \<open>\<open>strings.Index\<close>: the byte index of the first occurrence, \<open>-1\<close> when there is
  none.\<close>

fun IndexFrom :: "nat \<Rightarrow> string \<Rightarrow> string \<Rightarrow> int" where
  "IndexFrom i [] sub = (if sub = [] then int i else - 1)"
| "IndexFrom i (c # cs) sub =
     (if HasPrefix (c # cs) sub then int i else IndexFrom (i + 1) cs sub)"

definition Index :: "string \<Rightarrow> string \<Rightarrow> int" where
  "Index s sub = IndexFrom 0 s sub"

text \<open>\<open>strings.Count\<close> and \<open>strings.Split\<close> for a separator of one byte, the only
  way the program calls them.\<close>

definition Count :: "string \<Rightarrow> char \<Rightarrow> int" where
  "Count s c = int (length (filter (\<lambda>x. x = c) s))"

fun Split :: "string \<Rightarrow> char \<Rightarrow> string list" where
  "Split [] sep = [[]]"
| "Split (c # cs) sep =
     (if c = sep then [] # Split cs sep
      else (case Split cs sep of p # ps \<Rightarrow> (c # p) # ps | [] \<Rightarrow> [[c]]))"

fun Join :: "string list \<Rightarrow> string \<Rightarrow> string" where
  "Join [] sep = []"
| "Join [x] sep = x"
| "Join (x # y # ys) sep = x @ sep @ Join (y # ys) sep"

definition TrimSuffix :: "string \<Rightarrow> string \<Rightarrow> string" where
  "TrimSuffix s suffix = (if HasSuffix s suffix then take (length s - length suffix) s else s)"

text \<open>\<open>strings.TrimLeft\<close> and \<open>strings.TrimRight\<close> with a cutset of ASCII
  characters.\<close>

definition TrimLeft :: "string \<Rightarrow> string \<Rightarrow> string" where
  "TrimLeft s cutset = dropWhile (\<lambda>c. c \<in> set cutset) s"

definition TrimRight :: "string \<Rightarrow> string \<Rightarrow> string" where
  "TrimRight s cutset = rev (dropWhile (\<lambda>c. c \<in> set cutset) (rev s))"

text \<open>\<open>strings.Fields\<close>: the maximal pieces between white-space runes. \<open>cur\<close> is the
  field being read, \<open>n\<close> the number of bytes of a white-space rune still to skip.\<close>

fun fieldsLoop :: "string \<Rightarrow> nat \<Rightarrow> string \<Rightarrow> string list" where
  "fieldsLoop [] n cur = (if cur = [] then [] else [cur])"
| "fieldsLoop (c # cs) n cur =
     (if 0 < n then fieldsLoop cs (n - 1) cur
      else if 0 < spaceWidth (c # cs) then
        (if cur = [] then [] else [cur]) @ fieldsLoop cs (spaceWidth (c # cs) - 1) []
      else fieldsLoop cs 0 (cur @ [c]))"

definition Fields :: "string \<Rightarrow> string list" where
  "Fields s = fieldsLoop s 0 []"

text \<open>Decimal digits of a number, for \<open>%d\<close> in \<open>fmt.Sprintf\<close>.\<close>

fun digits :: "nat \<Rightarrow> string" where
  "digits n = (if n < 10 then [''0123456789'' ! n] else digits (n div 10) @ [''0123456789'' ! (n mod 10)])"

definition Itoa :: "int \<Rightarrow> string" where
  "Itoa i = (if i < 0 then CHR ''-'' # digits (nat (- i)) else digits (nat i))"

declare digits.simps [simp del]

text \<open>\<open>filepath.Base\<close> and \<open>filepath.Ext\<close> with \<open>/\<close> as the separator.\<close>

definition Base :: "string \<Rightarrow> string" where
  "Base path =
     (if path = [] then ''.''
      else
        let stripped = rev (dropWhile (\<lambda>c. c = CHR ''/'') (rev path));
            element = rev (takeWhile (\<lambda>c. c \<noteq> CHR ''/'') (rev stripped))
        in if element = [] then ''/'' else element)"

definition Ext :: "string \<Rightarrow> string" where
  "Ext path =
     (let element = rev (takeWhile (\<lambda>c. c \<noteq> CHR ''/'') (rev path))
      in if CHR ''.'' \<in> set element
         then CHR ''.'' # rev (takeWhile (\<lambda>c. c \<noteq> CHR ''.'') (rev element))
         else [])"

section \<open>Data model (internal/types/types.go, internal/fixer/fixer.go)\<close>

record Violation =
  Rule :: string
  Message :: string
  Line :: int
  Severity :: string
  Description :: string

record FileResult =
  ResultFilename :: string
  Violations :: "Violation list"
  Score :: real
  LineCount :: int

record Report =
  Files :: "FileResult list"
  TotalScore :: real
  TotalFiles :: int
  TotalLines :: int
  TotalViolations :: int
  CleanFiles :: int

record FunctionInfo =
  Name :: string
  StartLine :: int
  EndLine :: int
  ParamCount :: int

record FileAnalysis =
  Filename :: string
  Lines :: "string list"
  Functions :: "FunctionInfo list"

record RuleEntry =
  Code :: string
  RuleName :: string
  RuleDescription :: string
  RuleSeverity :: string
  Level :: int
  Check :: "FileAnalysis \<Rightarrow> string \<Rightarrow> int \<Rightarrow> Violation list"

record Fix =
  FixRule :: string
  FixDescription :: string
  FixLine :: int

record FixResult =
  FixFilename :: string
  OriginalLines :: int
  FixedLines :: int
  Fixes :: "Fix list"
  ModifiedContent :: bool
  NewFilename :: string

text \<open>\<open>result.Fixes = append(result.Fixes, fix)\<close>\<close>

definition appendFix :: "FixResult \<Rightarrow> Fix \<Rightarrow> FixResult" where
  "appendFix result fix = result\<lparr>Fixes := Fixes result @ [fix]\<rparr>"

section \<open>Helpers (helpers.go)\<close>

text \<open>Comparison of a byte with a range of ASCII characters, \<open>lo <= r && r <= hi\<close>.\<close>

definition inRange :: "char \<Rightarrow> char \<Rightarrow> char \<Rightarrow> bool" where
  "inRange lo hi r \<longleftrightarrow> (of_char lo :: nat) \<le> of_char r \<and> (of_char r :: nat) \<le> of_char hi"

text \<open>
  \<open>isSnakeCase\<close> ranges over the runes of \<open>s\<close> with their byte index \<open>i\<close>. A rune
  that is not ASCII is neither an upper-case ASCII letter nor an underscore, and neither
  is any of its bytes, so the loop over the bytes returns the same result.
  \<open>types.IsSnakeCase\<close>, which the packages under internal/ call, is this function.
\<close>

fun isSnakeCaseLoop :: "string \<Rightarrow> nat \<Rightarrow> string \<Rightarrow> bool" where
  "isSnakeCaseLoop s i [] = True"
| "isSnakeCaseLoop s i (r # rest) =
     (if inRange (CHR ''A'') (CHR ''Z'') r then False
      else if r = CHR ''_'' \<and> (i = 0 \<or> int i = int (length s) - 1) then False
      else isSnakeCaseLoop s (i + 1) rest)"

definition isSnakeCase :: "string \<Rightarrow> bool" where
  "isSnakeCase s = (if s = [] then False else isSnakeCaseLoop s 0 s)"

fun isScreamingSnakeCaseLoop :: "string \<Rightarrow> nat \<Rightarrow> string \<Rightarrow> bool" where
  "isScreamingSnakeCaseLoop s i [] = True"
| "isScreamingSnakeCaseLoop s i (r # rest) =
     (if inRange (CHR ''a'') (CHR ''z'') r then False
      else if r = CHR ''_'' \<and> (i = 0 \<or> int i = int (length s) - 1) then False
      else isScreamingSnakeCaseLoop s (i + 1) rest)"

definition isScreamingSnakeCase :: "string \<Rightarrow> bool" where
  "isScreamingSnakeCase s = (if s = [] then False else isScreamingSnakeCaseLoop s 0 s)"

text \<open>
  \<open>extractFunctions\<close>. \<open>detectHeader lines i currentFunc\<close> is the first half of the
  loop body, the "simple function detection" at line \<open>i\<close>: it returns the new value of
  \<open>currentFunc\<close>, which is the old one whenever one of the nested conditions fails.
\<close>

definition detectHeader :: "string list \<Rightarrow> nat \<Rightarrow> FunctionInfo option \<Rightarrow> FunctionInfo option" where
  "detectHeader lines i currentFunc =
     (let trimmed = TrimSpace (lines ! i) in
      if Contains trimmed ''('' \<and> Contains trimmed '')'' \<and>
         (Contains trimmed ''{'' \<or>
          (i + 1 < length lines \<and> Contains (TrimSpace (lines ! (i + 1))) ''{''))
      then
        if \<not> HasPrefix trimmed ''//'' \<and> \<not> HasPrefix trimmed ''/*'' \<and>
           \<not> Contains trimmed ''if'' \<and> \<not> Contains trimmed ''while'' \<and>
           \<not> Contains trimmed ''for'' \<and> \<not> Contains trimmed ''switch''
        then
          let parenPos = Index trimmed ''('' in
          if parenPos > 0 then
            let funcPart = take (nat parenPos) trimmed;
                parts = Fields funcPart
            in
            if length parts > 0 then
              let funcName0 = parts ! (length parts - 1);
                  funcName = (if Contains funcName0 ''*'' then TrimLeft funcName0 ''*''
                              else funcName0);
                  paramPart = drop (nat (parenPos + 1)) trimmed;
                  closeParenPos = Index paramPart '')''
              in
              if closeParenPos > 0 then
                let params = take (nat closeParenPos) paramPart;
                    paramCount =
                      (if TrimSpace params \<noteq> [] \<and> TrimSpace params \<noteq> ''void''
                       then Count params (CHR '','') + 1 else 0)
                in Some \<lparr>Name = funcName, StartLine = int i + 1, EndLine = 0,
                         ParamCount = paramCount\<rparr>
              else currentFunc
            else currentFunc
          else currentFunc
        else currentFunc
      else currentFunc)"

text \<open>The loop \<open>for i, line := range lines\<close> with its three variables.\<close>

function extractLoop ::
  "string list \<Rightarrow> nat \<Rightarrow> FunctionInfo list \<Rightarrow> FunctionInfo option \<Rightarrow> int \<Rightarrow> FunctionInfo list"
where
  "extractLoop lines i functions currentFunc braceCount =
     (if i < length lines then
        let line = lines ! i;
            currentFunc1 = detectHeader lines i currentFunc;
            braceCount1 = braceCount + Count line (CHR ''{'') - Count line (CHR ''}'')
        in
        (case currentFunc1 of
           Some f \<Rightarrow>
             if braceCount1 = 0 \<and> Contains line ''}''
             then extractLoop lines (i + 1) (functions @ [f\<lparr>EndLine := int i + 1\<rparr>]) None braceCount1
             else extractLoop lines (i + 1) functions currentFunc1 braceCount1
         | None \<Rightarrow> extractLoop lines (i + 1) functions currentFunc1 braceCount1)
      else functions)"
  by pat_completeness auto
termination
  by (relation "measure (\<lambda>(lines, i, functions, currentFunc, braceCount). length lines - i)") auto

declare extractLoop.simps [simp del]

definition extractFunctions :: "string list \<Rightarrow> FunctionInfo list" where
  "extractFunctions lines = extractLoop lines 0 [] None 0"

section \<open>Rule checks (rules.go)\<close>

text \<open>
  Every check has the signature \<open>func(analysis, filename, lineNum) []Violation\<close>. A
  loop \<open>for i, line := range analysis.Lines\<close> that appends at most one violation per
  line is written as a recursion over the lines still to visit, with the index \<open>i\<close>
  of the first of them.
\<close>

fun checkLineLengthLoop :: "string list \<Rightarrow> nat \<Rightarrow> Violation list \<Rightarrow> Violation list" where
  "checkLineLengthLoop [] i violations = violations"
| "checkLineLengthLoop (line # rest) i violations =
     (if length line > 80 then
        checkLineLengthLoop rest (i + 1) (violations @
          [\<lparr>Rule = ''C-L1'', Message = ''Line too long'', Line = int i + 1, Severity = ''major'',
            Description = ''Line contains '' @ Itoa (int (length line)) @ '' characters (max 80)''\<rparr>])
      else checkLineLengthLoop rest (i + 1) violations)"

definition CheckLineLength :: "FileAnalysis \<Rightarrow> string \<Rightarrow> int \<Rightarrow> Violation list" where
  "CheckLineLength analysis filename lineNum = checkLineLengthLoop (Lines analysis) 0 []"

text \<open>\<open>CheckEmptyLines\<close>: the loop \<open>for i := 1; i < len(lines); i++\<close> reads
  \<open>lines[i]\<close> and \<open>lines[i-1]\<close>.\<close>

function consecutiveLoop :: "string list \<Rightarrow> nat \<Rightarrow> Violation list \<Rightarrow> Violation list" where
  "consecutiveLoop lines i violations =
     (if i < length lines then
        (if TrimSpace (lines ! i) = [] \<and> TrimSpace (lines ! (i - 1)) = [] then
           consecutiveLoop lines (i + 1) (violations @
             [\<lparr>Rule = ''C-L2'', Message = ''Consecutive empty lines'', Line = int i + 1,
               Severity = ''minor'',
               Description = ''Multiple consecutive empty lines are forbidden''\<rparr>])
         else consecutiveLoop lines (i + 1) violations)
      else violations)"
  by pat_completeness auto
termination
  by (relation "measure (\<lambda>(lines, i, violations). length lines - i)") auto

declare consecutiveLoop.simps [simp del]

definition CheckEmptyLines :: "FileAnalysis \<Rightarrow> string \<Rightarrow> int \<Rightarrow> Violation list" where
  "CheckEmptyLines analysis filename lineNum =
     (let lines = Lines analysis;
          violations0 = [];
          violations1 =
            (if length lines > 0 \<and> TrimSpace (lines ! 0) = [] then
               violations0 @
               [\<lparr>Rule = ''C-L2'', Message = ''Empty line at beginning of file'', Line = 1,
                 Severity = ''minor'', Description = ''File should not start with empty line''\<rparr>]
             else violations0);
          violations2 =
            (if length lines > 1 \<and> TrimSpace (lines ! (length lines - 1)) = [] then
               violations1 @
               [\<lparr>Rule = ''C-L2'', Message = ''Empty line at end of file'',
                 Line = int (length lines), Severity = ''minor'',
                 Description = ''File should not end with empty line''\<rparr>]
             else violations1)
      in consecutiveLoop lines 1 violations2)"

fun checkIndentationLoop :: "string list \<Rightarrow> nat \<Rightarrow> Violation list \<Rightarrow> Violation list" where
  "checkIndentationLoop [] i violations = violations"
| "checkIndentationLoop (line # rest) i violations =
     (if length line > 0 \<and> line ! 0 = CHR '' '' then
        checkIndentationLoop rest (i + 1) (violations @
          [\<lparr>Rule = ''C-L3'', Message = ''Space indentation'', Line = int i + 1,
            Severity = ''major'', Description = ''Use TAB for indentation, not spaces''\<rparr>])
      else checkIndentationLoop rest (i + 1) violations)"

definition CheckIndentation :: "FileAnalysis \<Rightarrow> string \<Rightarrow> int \<Rightarrow> Violation list" where
  "CheckIndentation analysis filename lineNum = checkIndentationLoop (Lines analysis) 0 []"

fun checkVariableDeclarationLoop :: "string list \<Rightarrow> nat \<Rightarrow> Violation list \<Rightarrow> Violation list" where
  "checkVariableDeclarationLoop [] i violations = violations"
| "checkVariableDeclarationLoop (line # rest) i violations =
     (let trimmed = TrimSpace line in
      if (Contains trimmed ''int '' \<or> Contains trimmed ''char '' \<or>
          Contains trimmed ''float '' \<or> Contains trimmed ''double '') \<and>
         Count trimmed (CHR '','') > 0 \<and> \<not> Contains trimmed ''for''
      then
        checkVariableDeclarationLoop rest (i + 1) (violations @
          [\<lparr>Rule = ''C-L4'', Message = ''Multiple variable declaration'', Line = int i + 1,
            Severity = ''major'', Description = ''Declare only one variable per line''\<rparr>])
      else checkVariableDeclarationLoop rest (i + 1) violations)"

definition CheckVariableDeclaration :: "FileAnalysis \<Rightarrow> string \<Rightarrow> int \<Rightarrow> Violation list" where
  "CheckVariableDeclaration analysis filename lineNum =
     checkVariableDeclarationLoop (Lines analysis) 0 []"

definition CheckVariablePosition :: "FileAnalysis \<Rightarrow> string \<Rightarrow> int \<Rightarrow> Violation list" where
  "CheckVariablePosition analysis filename lineNum = []"

definition CheckFilename :: "FileAnalysis \<Rightarrow> string \<Rightarrow> int \<Rightarrow> Violation list" where
  "CheckFilename analysis filename lineNum =
     (let base = Base filename;
          name = TrimSuffix base (Ext base)
      in if \<not> isSnakeCase name then
           [\<lparr>Rule = ''C-O1'', Message = ''Invalid filename format'', Line = 0,
             Severity = ''major'', Description = ''Filename must be in snake_case''\<rparr>]
         else [])"

fun countFunctionsLoop :: "string list \<Rightarrow> int \<Rightarrow> int" where
  "countFunctionsLoop [] funcCount = funcCount"
| "countFunctionsLoop (line # rest) funcCount =
     (let trimmed = TrimSpace line in
      if Contains trimmed ''('' \<and> Contains trimmed '')'' \<and> Contains trimmed ''{'' \<and>
         \<not> HasPrefix trimmed ''//'' \<and> \<not> HasPrefix trimmed ''/*'' \<and>
         \<not> Contains trimmed ''if'' \<and> \<not> Contains trimmed ''while'' \<and>
         \<not> Contains trimmed ''for''
      then (if \<not> Contains trimmed ''main'' then countFunctionsLoop rest (funcCount + 1)
            else countFunctionsLoop rest funcCount)
      else countFunctionsLoop rest funcCount)"

definition CheckFunctionCount :: "FileAnalysis \<Rightarrow> string \<Rightarrow> int \<Rightarrow> Violation list" where
  "CheckFunctionCount analysis filename lineNum =
     (let funcCount = countFunctionsLoop (Lines analysis) 0 in
      if funcCount > 3 then
        [\<lparr>Rule = ''C-O2'', Message = ''Too many functions'', Line = 0, Severity = ''major'',
          Description = ''File contains '' @ Itoa funcCount @ '' functions (max 3 excluding main)''\<rparr>]
      else [])"

fun checkFunctionNamesLoop :: "FunctionInfo list \<Rightarrow> Violation list \<Rightarrow> Violation list" where
  "checkFunctionNamesLoop [] violations = violations"
| "checkFunctionNamesLoop (fn # rest) violations =
     (if \<not> isSnakeCase (Name fn) \<and> Name fn \<noteq> ''main'' then
        checkFunctionNamesLoop rest (violations @
          [\<lparr>Rule = ''C-F1'', Message = ''Invalid function name'', Line = StartLine fn,
            Severity = ''major'',
            Description = ''Function '' @ [CHR 0x27] @ Name fn @ [CHR 0x27] @ '' must be in snake_case''\<rparr>])
      else checkFunctionNamesLoop rest violations)"

definition CheckFunctionNames :: "FileAnalysis \<Rightarrow> string \<Rightarrow> int \<Rightarrow> Violation list" where
  "CheckFunctionNames analysis filename lineNum = checkFunctionNamesLoop (Functions analysis) []"

fun checkMacroNamesLoop :: "string list \<Rightarrow> nat \<Rightarrow> Violation list \<Rightarrow> Violation list" where
  "checkMacroNamesLoop [] i violations = violations"
| "checkMacroNamesLoop (line # rest) i violations =
     (let trimmed = TrimSpace line;
          parts = Fields trimmed
      in
      if HasPrefix trimmed ''#define '' \<and> length parts \<ge> 2 \<and>
         \<not> isScreamingSnakeCase (parts ! 1)
      then
        checkMacroNamesLoop rest (i + 1) (violations @
          [\<lparr>Rule = ''C-F2'', Message = ''Invalid macro name'', Line = int i + 1,
            Severity = ''major'',
            Description = ''Macro '' @ [CHR 0x27] @ (parts ! 1) @ [CHR 0x27] @
              '' must be in SCREAMING_SNAKE_CASE''\<rparr>])
      else checkMacroNamesLoop rest (i + 1) violations)"

definition CheckMacroNames :: "FileAnalysis \<Rightarrow> string \<Rightarrow> int \<Rightarrow> Violation list" where
  "CheckMacroNames analysis filename lineNum = checkMacroNamesLoop (Lines analysis) 0 []"

fun checkFunctionLengthLoop :: "FunctionInfo list \<Rightarrow> Violation list \<Rightarrow> Violation list" where
  "checkFunctionLengthLoop [] violations = violations"
| "checkFunctionLengthLoop (fn # rest) violations =
     (let len = EndLine fn - StartLine fn + 1 in
      if len > 25 then
        checkFunctionLengthLoop rest (violations @
          [\<lparr>Rule = ''C-F3'', Message = ''Function too long'', Line = StartLine fn,
            Severity = ''major'',
            Description = ''Function '' @ [CHR 0x27] @ Name fn @ [CHR 0x27] @ '' has '' @
              Itoa len @ '' lines (max 25)''\<rparr>])
      else checkFunctionLengthLoop rest violations)"

definition CheckFunctionLength :: "FileAnalysis \<Rightarrow> string \<Rightarrow> int \<Rightarrow> Violation list" where
  "CheckFunctionLength analysis filename lineNum = checkFunctionLengthLoop (Functions analysis) []"

fun checkCommentFormatLoop :: "string list \<Rightarrow> nat \<Rightarrow> Violation list \<Rightarrow> Violation list" where
  "checkCommentFormatLoop [] i violations = violations"
| "checkCommentFormatLoop (line # rest) i violations =
     (if Contains line ''//'' then
        checkCommentFormatLoop rest (i + 1) (violations @
          [\<lparr>Rule = ''C-C1'', Message = ''Invalid comment format'', Line = int i + 1,
            Severity = ''minor'',
            Description = ''Use /* */ comments only, not // comments''\<rparr>])
      else checkCommentFormatLoop rest (i + 1) violations)"

definition CheckCommentFormat :: "FileAnalysis \<Rightarrow> string \<Rightarrow> int \<Rightarrow> Violation list" where
  "CheckCommentFormat analysis filename lineNum = checkCommentFormatLoop (Lines analysis) 0 []"

definition CheckFunctionComment :: "FileAnalysis \<Rightarrow> string \<Rightarrow> int \<Rightarrow> Violation list" where
  "CheckFunctionComment analysis filename lineNum = []"

definition CheckGlobalVariables :: "FileAnalysis \<Rightarrow> string \<Rightarrow> int \<Rightarrow> Violation list" where
  "CheckGlobalVariables analysis filename lineNum = []"

fun checkFunctionParametersLoop :: "FunctionInfo list \<Rightarrow> Violation list \<Rightarrow> Violation list" where
  "checkFunctionParametersLoop [] violations = violations"
| "checkFunctionParametersLoop (fn # rest) violations =
     (if ParamCount fn > 4 then
        checkFunctionParametersLoop rest (violations @
          [\<lparr>Rule = ''C-F4'', Message = ''Too many parameters'', Line = StartLine fn,
            Severity = ''major'',
            Description = ''Function '' @ [CHR 0x27] @ Name fn @ [CHR 0x27] @ '' has '' @
              Itoa (ParamCount fn) @ '' parameters (max 4)''\<rparr>])
      else checkFunctionParametersLoop rest violations)"

definition CheckFunctionParameters :: "FileAnalysis \<Rightarrow> string \<Rightarrow> int \<Rightarrow> Violation list" where
  "CheckFunctionParameters analysis filename lineNum =
     checkFunctionParametersLoop (Functions analysis) []"

fun checkForLoopDeclarationLoop :: "string list \<Rightarrow> nat \<Rightarrow> Violation list \<Rightarrow> Violation list" where
  "checkForLoopDeclarationLoop [] i violations = violations"
| "checkForLoopDeclarationLoop (line # rest) i violations =
     (let trimmed = TrimSpace line in
      if Contains trimmed ''for'' \<and> Contains trimmed ''int '' then
        checkForLoopDeclarationLoop rest (i + 1) (violations @
          [\<lparr>Rule = ''C-L5'', Message = ''Variable declaration in for loop'', Line = int i + 1,
            Severity = ''major'',
            Description = ''Do not declare variables in for loop initialization''\<rparr>])
      else checkForLoopDeclarationLoop rest (i + 1) violations)"

definition CheckForLoopDeclaration :: "FileAnalysis \<Rightarrow> string \<Rightarrow> int \<Rightarrow> Violation list" where
  "CheckForLoopDeclaration analysis filename lineNum =
     checkForLoopDeclarationLoop (Lines analysis) 0 []"

section \<open>Fixer passes (internal/fixer/fixer.go)\<close>

text \<open>
  Every pass takes the lines and \<open>result *FixResult\<close> and returns the new lines; the
  fixes it appends to \<open>result.Fixes\<close> are returned as the updated \<open>result\<close>.
\<close>

subsection \<open>Empty-line compaction\<close>

text \<open>The loop \<open>for startIdx < len(lines) && strings.TrimSpace(lines[startIdx]) == ""\<close>.\<close>

function removeLeading :: "string list \<Rightarrow> nat \<Rightarrow> FixResult \<Rightarrow> nat \<times> FixResult" where
  "removeLeading lines startIdx result =
     (if startIdx < length lines \<and> TrimSpace (lines ! startIdx) = [] then
        removeLeading lines (startIdx + 1)
          (appendFix result
             \<lparr>FixRule = ''C-L2'', FixDescription = ''Removed empty line at beginning of file'',
              FixLine = int startIdx + 1\<rparr>)
      else (startIdx, result))"
  by pat_completeness auto
termination
  by (relation "measure (\<lambda>(lines, startIdx, result). length lines - startIdx)") auto

declare removeLeading.simps [simp del]

text \<open>The loop \<open>for i := startIdx; i < len(lines); i++\<close> with \<open>prevEmpty\<close> and
  \<open>fixed\<close>.\<close>

function removeConsecutive ::
  "string list \<Rightarrow> nat \<Rightarrow> bool \<Rightarrow> string list \<Rightarrow> FixResult \<Rightarrow> string list \<times> FixResult"
where
  "removeConsecutive lines i prevEmpty fixed result =
     (if i < length lines then
        let isEmpty = (TrimSpace (lines ! i) = []) in
        if isEmpty \<and> prevEmpty then
          removeConsecutive lines (i + 1) prevEmpty fixed
            (appendFix result
               \<lparr>FixRule = ''C-L2'', FixDescription = ''Removed consecutive empty line'',
                FixLine = int i + 1\<rparr>)
        else removeConsecutive lines (i + 1) isEmpty (fixed @ [lines ! i]) result
      else (fixed, result))"
  by pat_completeness auto
termination
  by (relation "measure (\<lambda>(lines, i, prevEmpty, fixed, result). length lines - i)") auto

declare removeConsecutive.simps [simp del]

text \<open>The loop \<open>for len(fixed) > 0 && strings.TrimSpace(fixed[len(fixed)-1]) == ""\<close>.\<close>

function removeTrailing :: "string list \<Rightarrow> FixResult \<Rightarrow> string list \<times> FixResult" where
  "removeTrailing fixed result =
     (if length fixed > 0 \<and> TrimSpace (fixed ! (length fixed - 1)) = [] then
        removeTrailing (take (length fixed - 1) fixed)
          (appendFix result
             \<lparr>FixRule = ''C-L2'', FixDescription = ''Removed empty line at end of file'',
              FixLine = int (length fixed)\<rparr>)
      else (fixed, result))"
  by pat_completeness auto
termination
  by (relation "measure (\<lambda>(fixed, result). length fixed)") auto

declare removeTrailing.simps [simp del]

definition fixEmptyLines :: "string list \<Rightarrow> FixResult \<Rightarrow> string list \<times> FixResult" where
  "fixEmptyLines lines result =
     (if length lines = 0 then (lines, result)
      else
        let (startIdx, result1) = removeLeading lines 0 result;
            (fixed, result2) = removeConsecutive lines startIdx False [] result1
        in removeTrailing fixed result2)"

subsection \<open>Indentation normalization\<close>

text \<open>\<open>fixed := make([]string, len(lines))\<close>, then \<open>fixed[i]\<close> is assigned for every
  \<open>i\<close>.\<close>

fun fixIndentationLoop ::
  "string list \<Rightarrow> nat \<Rightarrow> string list \<Rightarrow> FixResult \<Rightarrow> string list \<times> FixResult"
where
  "fixIndentationLoop [] i fixed result = (fixed, result)"
| "fixIndentationLoop (line # rest) i fixed result =
     (if length line > 0 \<and> line ! 0 = CHR '' '' then
        let spaceCount = length (takeWhile (\<lambda>r. r = CHR '' '') line);
            tabCount = spaceCount div 4;
            remainder = spaceCount mod 4
        in fixIndentationLoop rest (i + 1)
             (fixed[i := replicate tabCount (CHR 0x09) @ replicate remainder (CHR '' '') @
                          drop spaceCount line])
             (appendFix result
                \<lparr>FixRule = ''C-L3'',
                 FixDescription = ''Replaced '' @ Itoa (int spaceCount) @ '' spaces with '' @
                   Itoa (int tabCount) @ '' tabs'',
                 FixLine = int i + 1\<rparr>)
      else fixIndentationLoop rest (i + 1) (fixed[i := line]) result)"

definition fixIndentation :: "string list \<Rightarrow> FixResult \<Rightarrow> string list \<times> FixResult" where
  "fixIndentation lines result =
     fixIndentationLoop lines 0 (replicate (length lines) []) result"

subsection \<open>Declaration splitting\<close>

text \<open>
  The class \<open>\s\<close> of package \<open>regexp\<close> is \<open>[\t\n\f\r ]\<close>; an identifier is
  \<open>[a-zA-Z_][a-zA-Z0-9_]*\<close>.
\<close>

definition reSpace :: "char \<Rightarrow> bool" where
  "reSpace c \<longleftrightarrow> c = CHR 0x09 \<or> c = CHR 0x0A \<or> c = CHR 0x0C \<or> c = CHR 0x0D \<or> c = CHR 0x20"

definition identStart :: "char \<Rightarrow> bool" where
  "identStart c \<longleftrightarrow> inRange (CHR ''a'') (CHR ''z'') c \<or> inRange (CHR ''A'') (CHR ''Z'') c \<or> c = CHR ''_''"

definition identChar :: "char \<Rightarrow> bool" where
  "identChar c \<longleftrightarrow> identStart c \<or> inRange (CHR ''0'') (CHR ''9'') c"

text \<open>\<open>(kw1|kw2|...)\<close> at the front of \<open>s\<close>: the keyword and what follows it. No
  keyword of the two regular expressions is a prefix of another one.\<close>

fun readKeyword :: "string list \<Rightarrow> string \<Rightarrow> (string \<times> string) option" where
  "readKeyword [] s = None"
| "readKeyword (kw # kws) s =
     (if HasPrefix s kw then Some (kw, drop (length kw) s) else readKeyword kws s)"

text \<open>\<open>[a-zA-Z_][a-zA-Z0-9_]*\<close> at the front of \<open>s\<close>, followed by something that is
  not an identifier character: the identifier and what follows it.\<close>

definition readIdent :: "string \<Rightarrow> (string \<times> string) option" where
  "readIdent s =
     (case s of
        [] \<Rightarrow> None
      | c # cs \<Rightarrow> if identStart c then Some (c # takeWhile identChar cs, dropWhile identChar cs)
                 else None)"

text \<open>
  \<open>([a-zA-Z_][a-zA-Z0-9_]*\s*,\s*)+([a-zA-Z_][a-zA-Z0-9_]*)\s*;\<close> at the front of \<open>s\<close>,
  where \<open>n\<close> counts the identifiers followed by a comma read so far. Every repetition
  ends at a character that cannot continue it, so there is one way to match.
\<close>

function declarators :: "nat \<Rightarrow> string \<Rightarrow> bool" where
  "declarators n s =
     (case readIdent s of
        None \<Rightarrow> False
      | Some (ident, r) \<Rightarrow>
          (case dropWhile reSpace r of
             [] \<Rightarrow> False
           | c # r1 \<Rightarrow>
               if c = CHR '','' then declarators (n + 1) (dropWhile reSpace r1)
               else c = CHR '';'' \<and> 0 < n))"
  by pat_completeness auto
termination
proof (relation "measure (\<lambda>(n, s). length s)")
  fix n :: nat and s x2 x y :: string and xa :: "string \<times> string" and c :: char and r1 :: string
  assume a: "readIdent s = Some xa" "(x, y) = xa" "dropWhile reSpace y = c # r1"
  from a have "length y < length s"
    by (auto simp: readIdent_def split: list.splits if_splits
        intro: le_imp_less_Suc length_dropWhile_le)
  moreover have "length (dropWhile reSpace y) \<le> length y" by (rule length_dropWhile_le)
  moreover have "length (dropWhile reSpace r1) \<le> length r1" by (rule length_dropWhile_le)
  ultimately show "((n + 1, dropWhile reSpace r1), n, s) \<in> measure (\<lambda>(n, s). length s)"
    using a by simp
qed simp

declare declarators.simps [simp del]

text \<open>
  \<open>varDeclRegex.MatchString(line)\<close> for
  \<open>^\s*(int|char|float|double|long|short|unsigned)\s+(IDENT\s*,\s*)+(IDENT)\s*;\<close>
  The expression is anchored at the start only, so what follows the semicolon is free.
\<close>

definition varDeclMatch :: "string \<Rightarrow> bool" where
  "varDeclMatch line =
     (case readKeyword [''int'', ''char'', ''float'', ''double'', ''long'', ''short'', ''unsigned'']
             (dropWhile reSpace line) of
        None \<Rightarrow> False
      | Some (kw, r) \<Rightarrow>
          (case r of
             [] \<Rightarrow> False
           | c # r1 \<Rightarrow> reSpace c \<and> declarators 0 (dropWhile reSpace r1)))"

text \<open>The indentation loop of the passes: the leading tabs and spaces of the line.\<close>

definition indentOf :: "string \<Rightarrow> string" where
  "indentOf line = takeWhile (\<lambda>r. r = CHR 0x09 \<or> r = CHR '' '') line"

fun fixMultipleVariableDeclarationsLoop ::
  "string list \<Rightarrow> nat \<Rightarrow> string list \<Rightarrow> FixResult \<Rightarrow> string list \<times> FixResult"
where
  "fixMultipleVariableDeclarationsLoop [] i fixed result = (fixed, result)"
| "fixMultipleVariableDeclarationsLoop (line # rest) i fixed result =
     (if Contains line ''for'' then
        fixMultipleVariableDeclarationsLoop rest (i + 1) (fixed @ [line]) result
      else if varDeclMatch line \<and> length (Fields (TrimSpace line)) \<ge> 2 then
        let trimmed = TrimSpace line;
            parts = Fields trimmed;
            varType = parts ! 0;
            varsStr = TrimSuffix (Join (drop 1 parts) '' '') '';'';
            vars = Split varsStr (CHR '','');
            indent = indentOf line
        in fixMultipleVariableDeclarationsLoop rest (i + 1)
             (fixed @ map (\<lambda>v. indent @ varType @ '' '' @ TrimSpace v @ '';'') vars)
             (appendFix result
                \<lparr>FixRule = ''C-L4'',
                 FixDescription = ''Split multiple variable declarations into '' @
                   Itoa (int (length vars)) @ '' lines'',
                 FixLine = int i + 1\<rparr>)
      else fixMultipleVariableDeclarationsLoop rest (i + 1) (fixed @ [line]) result)"

definition fixMultipleVariableDeclarations ::
  "string list \<Rightarrow> FixResult \<Rightarrow> string list \<times> FixResult"
where
  "fixMultipleVariableDeclarations lines result =
     fixMultipleVariableDeclarationsLoop lines 0 [] result"

subsection \<open>Comment conversion\<close>

fun fixCommentFormatLoop ::
  "string list \<Rightarrow> nat \<Rightarrow> string list \<Rightarrow> FixResult \<Rightarrow> string list \<times> FixResult"
where
  "fixCommentFormatLoop [] i fixed result = (fixed, result)"
| "fixCommentFormatLoop (line # rest) i fixed result =
     (if Contains line ''//'' then
        let idx = Index line ''//'';
            beforeIdx = take (nat idx) line;
            comment = TrimSpace (drop (nat (idx + 2)) line)
        in fixCommentFormatLoop rest (i + 1)
             (fixed[i := (if comment = [] then TrimRight beforeIdx [CHR '' '', CHR 0x09]
                          else beforeIdx @ ''/* '' @ comment @ '' */'')])
             (appendFix result
                \<lparr>FixRule = ''C-C1'', FixDescription = ''Converted // comment to /* */'',
                 FixLine = int i + 1\<rparr>)
      else fixCommentFormatLoop rest (i + 1) (fixed[i := line]) result)"

definition fixCommentFormat :: "string list \<Rightarrow> FixResult \<Rightarrow> string list \<times> FixResult" where
  "fixCommentFormat lines result =
     fixCommentFormatLoop lines 0 (replicate (length lines) []) result"

subsection \<open>For-loop declaration extraction\<close>

text \<open>
  \<open>forDeclRegex.FindStringSubmatch(line)\<close> for
  \<open>^\s*for\s*\(\s*(int|char|float|double)\s+(IDENT)\s*=\s*([^;]+);(.*)$\<close>
  The result is the groups 1 to 4 of the match, or \<open>None\<close> for no match. After the
  equals sign, \<open>\s*\<close> is greedy and \<open>[^;]+\<close> needs one character at least: group 3
  starts after the white space that follows the equals sign, unless nothing but white
  space stands before the semicolon, and then it is the last white-space character.
  \<open>.\<close> does not match a line feed and \<open>$\<close> is the end of the text.
\<close>

text \<open>\<open>^\s*for\s*\(\s*\<close> at the front of the line: what follows it.\<close>

definition forHead :: "string \<Rightarrow> string option" where
  "forHead line =
     (let s1 = dropWhile reSpace line in
      if \<not> HasPrefix s1 ''for'' then None
      else
        (case dropWhile reSpace (drop 3 s1) of
           [] \<Rightarrow> None
         | p # s2 \<Rightarrow> if p \<noteq> CHR ''('' then None else Some (dropWhile reSpace s2)))"

text \<open>\<open>(int|char|float|double)\s+(IDENT)\s*=\<close> at the front of \<open>s\<close>: the groups 1 and
  2, and what follows the equals sign.\<close>

definition forDeclaration :: "string \<Rightarrow> (string \<times> string \<times> string) option" where
  "forDeclaration s =
     (case readKeyword [''int'', ''char'', ''float'', ''double''] s of
        None \<Rightarrow> None
      | Some (varType, s3) \<Rightarrow>
          (case s3 of
             [] \<Rightarrow> None
           | w # s4 \<Rightarrow>
               if \<not> reSpace w then None
               else
                 (case readIdent (dropWhile reSpace s4) of
                    None \<Rightarrow> None
                  | Some (varName, s5) \<Rightarrow>
                      (case dropWhile reSpace s5 of
                         [] \<Rightarrow> None
                       | e # s6 \<Rightarrow> if e \<noteq> CHR ''='' then None else Some (varType, varName, s6)))))"

text \<open>\<open>\s*([^;]+);(.*)$\<close> on all of \<open>s6\<close>: the groups 3 and 4.\<close>

definition forInit :: "string \<Rightarrow> (string \<times> string) option" where
  "forInit s6 =
     (let between = takeWhile (\<lambda>c. c \<noteq> CHR '';'') s6;
          tail = dropWhile (\<lambda>c. c \<noteq> CHR '';'') s6;
          group3 =
            (if dropWhile reSpace between \<noteq> [] then dropWhile reSpace between
             else [last between])
      in
      if between = [] \<or> tail = [] \<or> CHR 0x0A \<in> set (tl tail) then None
      else Some (group3, tl tail))"

definition forDeclSubmatch :: "string \<Rightarrow> (string \<times> string \<times> string \<times> string) option" where
  "forDeclSubmatch line =
     (case forHead line of
        None \<Rightarrow> None
      | Some s \<Rightarrow>
          (case forDeclaration s of
             None \<Rightarrow> None
           | Some (varType, varName, s6) \<Rightarrow>
               (case forInit s6 of
                  None \<Rightarrow> None
                | Some (group3, rest4) \<Rightarrow> Some (varType, varName, group3, rest4))))"

fun fixForLoopDeclarationsLoop ::
  "string list \<Rightarrow> nat \<Rightarrow> string list \<Rightarrow> FixResult \<Rightarrow> string list \<times> FixResult"
where
  "fixForLoopDeclarationsLoop [] i fixed result = (fixed, result)"
| "fixForLoopDeclarationsLoop (line # rest) i fixed result =
     (case forDeclSubmatch line of
        Some (varType, varName, group3, rest4) \<Rightarrow>
          let indent = indentOf line;
              initValue = TrimSpace group3;
              forLoop = indent @ ''for ('' @ varName @ '' = '' @ initValue @ '';'' @ rest4
          in fixForLoopDeclarationsLoop rest (i + 1)
               (fixed @ [indent @ varType @ '' '' @ varName @ '';'', [], forLoop])
               (appendFix result
                  \<lparr>FixRule = ''C-L5'',
                   FixDescription = ''Extracted variable declaration from for loop'',
                   FixLine = int i + 1\<rparr>)
      | None \<Rightarrow> fixForLoopDeclarationsLoop rest (i + 1) (fixed @ [line]) result)"

definition fixForLoopDeclarations :: "string list \<Rightarrow> FixResult \<Rightarrow> string list \<times> FixResult" where
  "fixForLoopDeclarations lines result = fixForLoopDeclarationsLoop lines 0 [] result"

subsection \<open>The pipeline of \<open>FixFile\<close>\<close>

text \<open>The five assignments \<open>lines = f.fixXxx(lines, result)\<close> of \<open>FixFile\<close>, in their
  order.\<close>

definition applyFixes :: "string list \<Rightarrow> FixResult \<Rightarrow> string list \<times> FixResult" where
  "applyFixes lines result =
     (let (lines1, result1) = fixEmptyLines lines result;
          (lines2, result2) = fixIndentation lines1 result1;
          (lines3, result3) = fixMultipleVariableDeclarations lines2 result2;
          (lines4, result4) = fixCommentFormat lines3 result3
      in fixForLoopDeclarations lines4 result4)"

section \<open>Files\<close>

text \<open>
  The program reads files with \<open>os.ReadFile\<close>, writes them with \<open>os.WriteFile\<close> and
  renames them with \<open>os.Rename\<close>. The state of the file system says what a read
  returns (\<open>None\<close> for an error), which writes and renames succeed, and keeps the list
  of the calls of \<open>os.WriteFile\<close> and \<open>os.Rename\<close> made so far, failed ones included.
\<close>

datatype error = PathError string string

datatype fsCall = WriteFileCall string string | RenameCall string string

record FS =
  readFile :: "string \<Rightarrow> string option"
  writable :: "string \<Rightarrow> bool"
  renamable :: "string \<Rightarrow> string \<Rightarrow> bool"
  calls :: "fsCall list"

definition osWriteFile :: "string \<Rightarrow> string \<Rightarrow> FS \<Rightarrow> error option \<times> FS" where
  "osWriteFile name content fs =
     (if writable fs name then
        (None, fs\<lparr>readFile := (readFile fs)(name \<mapsto> content),
                  calls := calls fs @ [WriteFileCall name content]\<rparr>)
      else (Some (PathError ''open'' name), fs\<lparr>calls := calls fs @ [WriteFileCall name content]\<rparr>))"

definition osRename :: "string \<Rightarrow> string \<Rightarrow> FS \<Rightarrow> error option \<times> FS" where
  "osRename oldpath newpath fs =
     (if renamable fs oldpath newpath then
        (None, fs\<lparr>readFile := (readFile fs)(newpath := readFile fs oldpath, oldpath := None),
                  calls := calls fs @ [RenameCall oldpath newpath]\<rparr>)
      else (Some (PathError ''rename'' oldpath),
            fs\<lparr>calls := calls fs @ [RenameCall oldpath newpath]\<rparr>))"

section \<open>Analyzer (package analyzer)\<close>

text \<open>
  \<open>rules map[string]Rule\<close> is the list of its entries in the order \<open>initRules\<close>
  stores them; the keys are distinct. Go leaves the order in which \<open>range\<close> visits a
  map open; \<open>checkRules\<close> visits the entries in the order of this list.
\<close>

record Analyzer =
  level :: int
  rules :: "(string \<times> RuleEntry) list"

definition initRules :: "int \<Rightarrow> (string \<times> RuleEntry) list" where
  "initRules lvl =
     [(''C-L1'', \<lparr>Code = ''C-L1'', RuleName = ''Line Length'',
         RuleDescription = ''Line too long (80 chars max)'', RuleSeverity = ''major'', Level = 1,
         Check = CheckLineLength\<rparr>),
      (''C-L2'', \<lparr>Code = ''C-L2'', RuleName = ''Empty Lines'',
         RuleDescription = ''Forbidden empty lines'', RuleSeverity = ''minor'', Level = 1,
         Check = CheckEmptyLines\<rparr>),
      (''C-L3'', \<lparr>Code = ''C-L3'', RuleName = ''Indentation'',
         RuleDescription = ''TAB indentation only'', RuleSeverity = ''major'', Level = 1,
         Check = CheckIndentation\<rparr>),
      (''C-L4'', \<lparr>Code = ''C-L4'', RuleName = ''Variable Declaration'',
         RuleDescription = ''One variable per line'', RuleSeverity = ''major'', Level = 1,
         Check = CheckVariableDeclaration\<rparr>),
      (''C-V1'', \<lparr>Code = ''C-V1'', RuleName = ''Variable Position'',
         RuleDescription = ''Variables at function start'', RuleSeverity = ''major'', Level = 1,
         Check = CheckVariablePosition\<rparr>),
      (''C-O1'', \<lparr>Code = ''C-O1'', RuleName = ''Filename'',
         RuleDescription = ''Filename in snake_case'', RuleSeverity = ''major'', Level = 1,
         Check = CheckFilename\<rparr>),
      (''C-O2'', \<lparr>Code = ''C-O2'', RuleName = ''Function Count'',
         RuleDescription = ''Max 3 functions per file'', RuleSeverity = ''major'', Level = 1,
         Check = CheckFunctionCount\<rparr>),
      (''C-F1'', \<lparr>Code = ''C-F1'', RuleName = ''Function Name'',
         RuleDescription = ''Function name in snake_case'', RuleSeverity = ''major'', Level = 1,
         Check = CheckFunctionNames\<rparr>),
      (''C-F2'', \<lparr>Code = ''C-F2'', RuleName = ''Macro Name'',
         RuleDescription = ''Macro in SCREAMING_SNAKE_CASE'', RuleSeverity = ''major'', Level = 1,
         Check = CheckMacroNames\<rparr>),
      (''C-F3'', \<lparr>Code = ''C-F3'', RuleName = ''Function Length'',
         RuleDescription = ''Function max 25 lines'', RuleSeverity = ''major'', Level = 1,
         Check = CheckFunctionLength\<rparr>)] @
     (if lvl \<ge> 2 then
        [(''C-C1'', \<lparr>Code = ''C-C1'', RuleName = ''Comment Format'',
            RuleDescription = ''/* */ comments only'', RuleSeverity = ''minor'', Level = 2,
            Check = CheckCommentFormat\<rparr>),
         (''C-C2'', \<lparr>Code = ''C-C2'', RuleName = ''Function Comment'',
            RuleDescription = ''Function comment required'', RuleSeverity = ''minor'', Level = 2,
            Check = CheckFunctionComment\<rparr>),
         (''C-G1'', \<lparr>Code = ''C-G1'', RuleName = ''Global Variables'',
            RuleDescription = ''No non-const globals'', RuleSeverity = ''major'', Level = 2,
            Check = CheckGlobalVariables\<rparr>),
         (''C-F4'', \<lparr>Code = ''C-F4'', RuleName = ''Function Parameters'',
            RuleDescription = ''Max 4 parameters'', RuleSeverity = ''major'', Level = 2,
            Check = CheckFunctionParameters\<rparr>),
         (''C-L5'', \<lparr>Code = ''C-L5'', RuleName = ''For Loop Declaration'',
            RuleDescription = ''No declaration in for loops'', RuleSeverity = ''major'', Level = 2,
            Check = CheckForLoopDeclaration\<rparr>)]
      else [])"

definition NewAnalyzer :: "int \<Rightarrow> Analyzer" where
  "NewAnalyzer lvl = \<lparr>level = lvl, rules = initRules lvl\<rparr>"

fun checkRulesLoop ::
  "Analyzer \<Rightarrow> (string \<times> RuleEntry) list \<Rightarrow> FileAnalysis \<Rightarrow> string \<Rightarrow> Violation list \<Rightarrow> Violation list"
where
  "checkRulesLoop a [] analysis filename violations = violations"
| "checkRulesLoop a ((code, rule) # rest) analysis filename violations =
     (if Level rule \<le> level a then
        checkRulesLoop a rest analysis filename (violations @ Check rule analysis filename 0)
      else checkRulesLoop a rest analysis filename violations)"

definition checkRules :: "Analyzer \<Rightarrow> FileAnalysis \<Rightarrow> string \<Rightarrow> Violation list" where
  "checkRules a analysis filename = checkRulesLoop a (rules a) analysis filename []"

text \<open>
  \<open>CalculateScore\<close> works on \<open>float64\<close>. Every value it computes from \<open>100.0\<close> by
  subtracting \<open>5.0\<close> or \<open>2.0\<close> is an integer, and \<open>float64\<close> subtraction is exact
  on integers below \<open>2^53\<close> in absolute value, so \<^typ>\<open>real\<close> arithmetic gives
  the same result.
\<close>

fun scoreLoop :: "Violation list \<Rightarrow> real \<Rightarrow> real" where
  "scoreLoop [] score = score"
| "scoreLoop (v # rest) score =
     (let penalty = (if Severity v = ''minor'' then 2.0 else 5.0)
      in scoreLoop rest (score - penalty))"

definition CalculateScore :: "Violation list \<Rightarrow> real" where
  "CalculateScore violations =
     (let score = scoreLoop violations 100.0 in if score < 0 then 0 else score)"

definition AnalyzeFile :: "Analyzer \<Rightarrow> string \<Rightarrow> FS \<Rightarrow> error + FileResult" where
  "AnalyzeFile a filename fs =
     (case readFile fs filename of
        None \<Rightarrow> Inl (PathError ''open'' filename)
      | Some content \<Rightarrow>
          let lines = Split content (CHR 0x0A);
              analysis = \<lparr>Filename = filename, Lines = lines,
                          Functions = extractFunctions lines\<rparr>;
              violations = checkRules a analysis filename;
              score = CalculateScore violations
          in Inr \<lparr>ResultFilename = Base filename, Violations = violations, Score = score,
                  LineCount = int (length lines)\<rparr>)"

text \<open>The loop \<open>for _, file := range files\<close> of \<open>AnalyzePath\<close>; a file whose
  analysis returns an error is passed over by \<open>continue\<close>.\<close>

fun analyzeLoop :: "Analyzer \<Rightarrow> FS \<Rightarrow> string list \<Rightarrow> Report \<Rightarrow> Report" where
  "analyzeLoop a fs [] report = report"
| "analyzeLoop a fs (file # rest) report =
     (case AnalyzeFile a file fs of
        Inl err \<Rightarrow> analyzeLoop a fs rest report
      | Inr result \<Rightarrow>
          analyzeLoop a fs rest
            (report\<lparr>Files := Files report @ [result],
                    TotalFiles := TotalFiles report + 1,
                    TotalLines := TotalLines report + LineCount result,
                    TotalViolations := TotalViolations report + int (length (Violations result)),
                    CleanFiles := (if length (Violations result) = 0 then CleanFiles report + 1
                                   else CleanFiles report)\<rparr>))"

fun totalScoreLoop :: "FileResult list \<Rightarrow> real \<Rightarrow> real" where
  "totalScoreLoop [] totalScore = totalScore"
| "totalScoreLoop (file # rest) totalScore = totalScoreLoop rest (totalScore + Score file)"

text \<open>
  \<open>AnalyzePath\<close>. \<open>collected\<close> is what \<open>a.CollectFiles(path)\<close> returned, the walk of
  the directory tree being outside this model. The mean of the scores is a \<open>float64\<close>
  division in the program and a division of \<^typ>\<open>real\<close> here.
\<close>

definition AnalyzePath :: "Analyzer \<Rightarrow> error + string list \<Rightarrow> FS \<Rightarrow> error + Report" where
  "AnalyzePath a collected fs =
     (case collected of
        Inl err \<Rightarrow> Inl err
      | Inr files \<Rightarrow>
          let report = analyzeLoop a fs files
                \<lparr>Files = [], TotalScore = 0, TotalFiles = 0, TotalLines = 0,
                 TotalViolations = 0, CleanFiles = 0\<rparr>
          in if TotalFiles report > 0 then
               Inr (report\<lparr>TotalScore :=
                      totalScoreLoop (Files report) 0.0 / real_of_int (TotalFiles report)\<rparr>)
             else Inr report)"

section \<open>\<open>FixFile\<close> and \<open>runFixer\<close>\<close>

definition shouldFixFilename :: "string \<Rightarrow> bool" where
  "shouldFixFilename filename =
     (let base = Base filename;
          name = TrimSuffix base (Ext base)
      in \<not> isSnakeCase name)"

text \<open>
  \<open>fixFilename\<close> calls \<open>types.ToSnakeCase\<close>, which is not among the sources, and
  \<open>filepath.Dir\<close> and \<open>filepath.Join\<close> of the Go library; the three are parameters.
\<close>

record PathFuns =
  ToSnakeCase :: "string \<Rightarrow> string"
  Dir :: "string \<Rightarrow> string"
  JoinPath :: "string \<Rightarrow> string \<Rightarrow> string"

definition fixFilename :: "PathFuns \<Rightarrow> string \<Rightarrow> string" where
  "fixFilename env filename =
     (let dir = Dir env filename;
          base = Base filename;
          ext = Ext base;
          name = TrimSuffix base ext;
          snakeName = ToSnakeCase env name
      in JoinPath env dir (snakeName @ ext))"

definition FixFile :: "PathFuns \<Rightarrow> bool \<Rightarrow> string \<Rightarrow> FS \<Rightarrow> (error + FixResult) \<times> FS" where
  "FixFile env dryRun filename fs =
     (case readFile fs filename of
        None \<Rightarrow> (Inl (PathError ''open'' filename), fs)
      | Some originalContent \<Rightarrow>
          let lines = Split originalContent (CHR 0x0A);
              result = \<lparr>FixFilename = Base filename, OriginalLines = int (length lines),
                        FixedLines = 0, Fixes = [], ModifiedContent = False, NewFilename = []\<rparr>;
              (lines5, result5) = applyFixes lines result;
              fixedContent = Join lines5 [CHR 0x0A];
              result6 =
                (if shouldFixFilename filename then
                   let newName = fixFilename env filename
                   in (appendFix result5
                         \<lparr>FixRule = ''C-O1'',
                          FixDescription = ''Rename file to '' @ Base newName,
                          FixLine = 0\<rparr>)\<lparr>NewFilename := newName\<rparr>
                 else result5);
              fixedLines = int (length (Split fixedContent (CHR 0x0A)))
          in
          if \<not> dryRun \<and> fixedContent \<noteq> originalContent then
            (case osWriteFile filename fixedContent fs of
               (Some err, fs1) \<Rightarrow> (Inl err, fs1)
             | (None, fs1) \<Rightarrow>
                 (Inr (result6\<lparr>ModifiedContent := True, FixedLines := fixedLines\<rparr>), fs1))
          else (Inr (result6\<lparr>FixedLines := fixedLines\<rparr>), fs))"

text \<open>
  The loop \<open>for _, file := range files\<close> of \<open>runFixer\<close> with its counters
  \<open>totalFixes\<close> and \<open>filesModified\<close>. What the function prints is left out.
\<close>

fun runFixerLoop ::
  "PathFuns \<Rightarrow> bool \<Rightarrow> string list \<Rightarrow> int \<Rightarrow> int \<Rightarrow> FS \<Rightarrow> (int \<times> int) \<times> FS"
where
  "runFixerLoop env dryRun [] totalFixes filesModified fs = ((totalFixes, filesModified), fs)"
| "runFixerLoop env dryRun (file # rest) totalFixes filesModified fs =
     (case FixFile env dryRun file fs of
        (Inl err, fs1) \<Rightarrow> runFixerLoop env dryRun rest totalFixes filesModified fs1
      | (Inr result, fs1) \<Rightarrow>
          if length (Fixes result) > 0 then
            let totalFixes1 = totalFixes + int (length (Fixes result));
                filesModified1 = (if ModifiedContent result then filesModified + 1
                                  else filesModified);
                fs2 = (if NewFilename result \<noteq> [] \<and> \<not> dryRun
                       then snd (osRename file (NewFilename result) fs1) else fs1)
            in runFixerLoop env dryRun rest totalFixes1 filesModified1 fs2
          else runFixerLoop env dryRun rest totalFixes filesModified fs1)"

text \<open>\<open>runFixer\<close>; \<open>collected\<close> is what \<open>types.CollectCFiles(path)\<close> returned.\<close>

definition runFixer ::
  "PathFuns \<Rightarrow> bool \<Rightarrow> error + string list \<Rightarrow> FS \<Rightarrow> error option \<times> FS"
where
  "runFixer env dryRun collected fs =
     (case collected of
        Inl err \<Rightarrow> (Some err, fs)
      | Inr files \<Rightarrow>
          if length files = 0 then (None, fs)
          else (None, snd (runFixerLoop env dryRun files 0 0 fs)))"

section \<open>Notions of the specification\<close>

text \<open>A line is blank when it consists of white space only:
  \<open>strings.TrimSpace(line) == ""\<close>.\<close>

definition isBlank :: "string \<Rightarrow> bool" where
  "isBlank line \<longleftrightarrow> TrimSpace line = []"

text \<open>
  Empty-line compaction in the words of the specification: drop all leading blank
  lines; then suppress every blank line that immediately follows another blank line;
  then drop all trailing blank lines.
\<close>

definition specDropLeading :: "string list \<Rightarrow> string list" where
  "specDropLeading ls = dropWhile isBlank ls"

definition specSuppress :: "string list \<Rightarrow> string list" where
  "specSuppress ls =
     map (\<lambda>i. ls ! i)
       (filter (\<lambda>i. \<not> (0 < i \<and> isBlank (ls ! i) \<and> isBlank (ls ! (i - 1)))) [0..<length ls])"

definition specDropTrailing :: "string list \<Rightarrow> string list" where
  "specDropTrailing ls = rev (dropWhile isBlank (rev ls))"

definition specCompact :: "string list \<Rightarrow> string list" where
  "specCompact ls = specDropTrailing (specSuppress (specDropLeading ls))"

text \<open>The lines that the second loop of \<open>fixEmptyLines\<close> keeps, as a recursion over
  the lines still to visit; \<open>prev\<close> says whether the line before them is blank.\<close>

fun keptFrom :: "bool \<Rightarrow> string list \<Rightarrow> string list" where
  "keptFrom prev [] = []"
| "keptFrom prev (l # ls) =
     (if isBlank l \<and> prev then keptFrom prev ls else l # keptFrom (isBlank l) ls)"

text \<open>Two adjacent blank lines somewhere in a list.\<close>

fun adjacentBlank :: "string list \<Rightarrow> bool" where
  "adjacentBlank (x # y # ys) = ((isBlank x \<and> isBlank y) \<or> adjacentBlank (y # ys))"
| "adjacentBlank _ = False"

text \<open>The three violations of rule C-L2.\<close>

definition leadingViolation :: Violation where
  "leadingViolation =
     \<lparr>Rule = ''C-L2'', Message = ''Empty line at beginning of file'', Line = 1,
      Severity = ''minor'', Description = ''File should not start with empty line''\<rparr>"

definition trailingViolation :: "int \<Rightarrow> Violation" where
  "trailingViolation n =
     \<lparr>Rule = ''C-L2'', Message = ''Empty line at end of file'', Line = n,
      Severity = ''minor'', Description = ''File should not end with empty line''\<rparr>"

definition consecutiveViolation :: "nat \<Rightarrow> Violation" where
  "consecutiveViolation i =
     \<lparr>Rule = ''C-L2'', Message = ''Consecutive empty lines'', Line = int i + 1,
      Severity = ''minor'', Description = ''Multiple consecutive empty lines are forbidden''\<rparr>"

text \<open>The \<open>FixResult\<close> without fixes that the tests of the passes start from.\<close>

definition emptyResult :: FixResult where
  "emptyResult =
     \<lparr>FixFilename = [], OriginalLines = 0, FixedLines = 0, Fixes = [], ModifiedContent = False,
      NewFilename = []\<rparr>"

text \<open>
  Indentation normalization in the words of the specification: the number of leading
  spaces of a line, and the line with every complete group of 4 leading spaces turned
  into one tab, the remaining 0 to 3 spaces kept and the rest unchanged.
\<close>

definition startsWithSpace :: "string \<Rightarrow> bool" where
  "startsWithSpace line \<longleftrightarrow> line \<noteq> [] \<and> hd line = CHR '' ''"

definition leadingSpaces :: "string \<Rightarrow> nat" where
  "leadingSpaces line = length (takeWhile (\<lambda>c. c = CHR '' '') line)"

definition specNormalized :: "string \<Rightarrow> string" where
  "specNormalized line =
     replicate (leadingSpaces line div 4) (CHR 0x09) @
     replicate (leadingSpaces line mod 4) (CHR '' '') @
     drop (leadingSpaces line) line"

text \<open>The fix that \<open>fixIndentation\<close> records for the line with index \<open>i\<close>.\<close>

definition indentationFix :: "nat \<Rightarrow> string \<Rightarrow> Fix" where
  "indentationFix i line =
     \<lparr>FixRule = ''C-L3'',
      FixDescription = ''Replaced '' @ Itoa (int (leadingSpaces line)) @ '' spaces with '' @
        Itoa (int (leadingSpaces line div 4)) @ '' tabs'',
      FixLine = int i + 1\<rparr>"

text \<open>The number of lines of the output that differ from the line of the input at the
  same position.\<close>

definition modifiedLines :: "string list \<Rightarrow> string list \<Rightarrow> nat" where
  "modifiedLines input output = length (filter (\<lambda>(a, b). a \<noteq> b) (zip input output))"

text \<open>
  snake_case in the words of the glossary: a nonempty string of lower-case letters,
  digits and underscores, in which the underscore is neither the first nor the last
  character.
\<close>

definition specSnakeCase :: "string \<Rightarrow> bool" where
  "specSnakeCase s \<longleftrightarrow>
     s \<noteq> [] \<and>
     (\<forall>c\<in>set s. inRange (CHR ''a'') (CHR ''z'') c \<or> inRange (CHR ''0'') (CHR ''9'') c \<or> c = CHR ''_'') \<and>
     hd s \<noteq> CHR ''_'' \<and> last s \<noteq> CHR ''_''"

text \<open>The violations of the rules C-O1 and C-F1.\<close>

definition filenameViolation :: Violation where
  "filenameViolation =
     \<lparr>Rule = ''C-O1'', Message = ''Invalid filename format'', Line = 0,
      Severity = ''major'', Description = ''Filename must be in snake_case''\<rparr>"

definition functionNameViolation :: "FunctionInfo \<Rightarrow> Violation" where
  "functionNameViolation fn =
     \<lparr>Rule = ''C-F1'', Message = ''Invalid function name'', Line = StartLine fn,
      Severity = ''major'',
      Description = ''Function '' @ [CHR 0x27] @ Name fn @ [CHR 0x27] @ '' must be in snake_case''\<rparr>"

text \<open>
  Parameter counting in the words of the specification. The text of a parameter list is
  split on commas and the pieces are counted; an empty (white space only) or \<open>void\<close>
  list counts as zero. \<open>outermostParenText\<close> is the text between the outermost
  parentheses of a header, from its first opening to its last closing parenthesis;
  \<open>firstParenText\<close> is the text between the first opening parenthesis and the first
  closing parenthesis after it.
\<close>

definition specParamCount :: "string \<Rightarrow> int" where
  "specParamCount params =
     (if TrimSpace params = [] \<or> TrimSpace params = ''void'' then 0
      else int (length (Split params (CHR '',''))))"

definition outermostParenText :: "string \<Rightarrow> string" where
  "outermostParenText header =
     rev (drop 1 (dropWhile (\<lambda>c. c \<noteq> CHR '')'')
       (rev (drop 1 (dropWhile (\<lambda>c. c \<noteq> CHR ''('') header)))))"

definition firstParenText :: "string \<Rightarrow> string" where
  "firstParenText header =
     takeWhile (\<lambda>c. c \<noteq> CHR '')'') (drop 1 (dropWhile (\<lambda>c. c \<noteq> CHR ''('') header))"

text \<open>
  The files of a collected list whose read succeeds, and the \<open>FileResult\<close> that
  \<open>AnalyzeFile\<close> returns for one of them.
\<close>

definition readable :: "FS \<Rightarrow> string \<Rightarrow> bool" where
  "readable fs file \<longleftrightarrow> readFile fs file \<noteq> None"

definition resultOf :: "Analyzer \<Rightarrow> FS \<Rightarrow> string \<Rightarrow> FileResult" where
  "resultOf a fs file = projr (AnalyzeFile a file fs)"

text \<open>A file system with the one file \<open>src/a.c\<close>, for the examples.\<close>

definition fs0 :: FS where
  "fs0 = \<lparr>readFile = [''src/a.c'' \<mapsto> ''int x;''], writable = (\<lambda>f. True),
          renamable = (\<lambda>f g. True), calls = []\<rparr>"

text \<open>A file system with the one file \<open>src/MyFile.c\<close>, and path functions that
  answer for this file, for the examples.\<close>

definition fs1 :: FS where
  "fs1 = \<lparr>readFile = [''src/MyFile.c'' \<mapsto> ''    int x, y;''], writable = (\<lambda>f. True),
          renamable = (\<lambda>f g. True), calls = []\<rparr>"

definition env1 :: PathFuns where
  "env1 = \<lparr>ToSnakeCase = (\<lambda>s. ''my_file''), Dir = (\<lambda>p. ''src''),
           JoinPath = (\<lambda>d f. d @ ''/'' @ f)\<rparr>"

section \<open>Verified properties\<close>

subsection \<open>Scoring\<close>

lemma scoreLoop_sum:
  "scoreLoop vs s = s - (\<Sum>v\<leftarrow>vs. if Severity v = ''minor'' then 2 else 5)"
  by (induction vs arbitrary: s) (simp_all add: Let_def)

lemma penalty_sum_counts:
  assumes "\<forall>v\<in>set vs. Severity v = ''major'' \<or> Severity v = ''minor''"
  shows "(\<Sum>v\<leftarrow>vs. if Severity v = ''minor'' then 2 else (5::real)) =
         5 * real (length (filter (\<lambda>v. Severity v = ''major'') vs)) +
         2 * real (length (filter (\<lambda>v. Severity v = ''minor'') vs))"
  using assms by (induction vs) auto

text \<open>
  Claim C2. For every violation list the score of \<open>CalculateScore\<close> is
  \<open>max(0, 100 - sum of penalties)\<close>, where a violation of severity \<open>minor\<close> costs 2
  and every other one 5; for a list whose severities are \<open>major\<close> or \<open>minor\<close>, the
  only ones the checks produce, that is 5 for each \<open>major\<close> and 2 for each \<open>minor\<close>
  violation. So the score lies between 0 and 100, the empty list scores 100, a list
  of \<open>minor\<close> violations only scores \<open>100 - 2 * count\<close> floored at 0 and a list of
  \<open>major\<close> violations only \<open>100 - 5 * count\<close> floored at 0.
\<close>

theorem CalculateScore_formula:
  "CalculateScore vs = max 0 (100 - (\<Sum>v\<leftarrow>vs. if Severity v = ''minor'' then 2 else 5))
   \<and> ((\<forall>v\<in>set vs. Severity v = ''major'' \<or> Severity v = ''minor'') \<longrightarrow>
        CalculateScore vs =
          max 0 (100 - (5 * real (length (filter (\<lambda>v. Severity v = ''major'') vs)) +
                        2 * real (length (filter (\<lambda>v. Severity v = ''minor'') vs)))))
   \<and> 0 \<le> CalculateScore vs \<and> CalculateScore vs \<le> 100
   \<and> CalculateScore [] = 100
   \<and> ((\<forall>v\<in>set vs. Severity v = ''minor'') \<longrightarrow>
        CalculateScore vs = max 0 (100 - 2 * real (length vs)))
   \<and> ((\<forall>v\<in>set vs. Severity v = ''major'') \<longrightarrow>
        CalculateScore vs = max 0 (100 - 5 * real (length vs)))"
proof -
  let ?p = "\<lambda>v. if Severity v = ''minor'' then 2 else (5::real)"
  have formula: "CalculateScore vs = max 0 (100 - (\<Sum>v\<leftarrow>vs. ?p v))"
    by (simp add: CalculateScore_def scoreLoop_sum Let_def max_def)
  have nonneg: "0 \<le> (\<Sum>v\<leftarrow>vs. ?p v)"
    by (induction vs) auto
  have counts: "(\<forall>v\<in>set vs. Severity v = ''major'' \<or> Severity v = ''minor'') \<longrightarrow>
        CalculateScore vs =
          max 0 (100 - (5 * real (length (filter (\<lambda>v. Severity v = ''major'') vs)) +
                        2 * real (length (filter (\<lambda>v. Severity v = ''minor'') vs))))"
    using formula penalty_sum_counts [of vs] by simp
  have minor: "(\<forall>v\<in>set vs. Severity v = ''minor'') \<longrightarrow>
        (\<Sum>v\<leftarrow>vs. ?p v) = 2 * real (length vs)"
    by (induction vs) auto
  have major: "(\<forall>v\<in>set vs. Severity v = ''major'') \<longrightarrow>
        (\<Sum>v\<leftarrow>vs. ?p v) = 5 * real (length vs)"
    by (induction vs) auto
  have empty: "CalculateScore [] = 100"
    by (simp add: CalculateScore_def)
  show ?thesis
    using formula counts nonneg minor major empty by (simp add: max_def)
qed

theorem CalculateScore_formula_witness:
  "CalculateScore [\<lparr>Rule = ''C-L2'', Message = [], Line = 1, Severity = ''minor'', Description = []\<rparr>,
                   \<lparr>Rule = ''C-C1'', Message = [], Line = 2, Severity = ''minor'', Description = []\<rparr>] = 96
   \<and> CalculateScore [\<lparr>Rule = ''C-L1'', Message = [], Line = 1, Severity = ''major'', Description = []\<rparr>,
                   \<lparr>Rule = ''C-L3'', Message = [], Line = 2, Severity = ''major'', Description = []\<rparr>] = 90
   \<and> CalculateScore [\<lparr>Rule = ''C-L1'', Message = [], Line = 1, Severity = ''major'', Description = []\<rparr>,
                   \<lparr>Rule = ''C-L2'', Message = [], Line = 2, Severity = ''minor'', Description = []\<rparr>] = 93"
  using CalculateScore_formula
      [of "[\<lparr>Rule = ''C-L2'', Message = [], Line = 1, Severity = ''minor'', Description = []\<rparr>,
            \<lparr>Rule = ''C-C1'', Message = [], Line = 2, Severity = ''minor'', Description = []\<rparr>]"]
    CalculateScore_formula
      [of "[\<lparr>Rule = ''C-L1'', Message = [], Line = 1, Severity = ''major'', Description = []\<rparr>,
            \<lparr>Rule = ''C-L3'', Message = [], Line = 2, Severity = ''major'', Description = []\<rparr>]"]
    CalculateScore_formula
      [of "[\<lparr>Rule = ''C-L1'', Message = [], Line = 1, Severity = ''major'', Description = []\<rparr>,
            \<lparr>Rule = ''C-L2'', Message = [], Line = 2, Severity = ''minor'', Description = []\<rparr>]"]
  by simp

subsection \<open>Evaluation on concrete lines\<close>

lemmas trim_eval =
  isBlank_def TrimSpace_def trimRightSpace_def trimLeftSpace.simps trimLeftSpaceRev.simps
  asciiSpace_def e2Third_def

lemmas fixEmptyLines_eval =
  fixEmptyLines_def removeLeading.simps removeConsecutive.simps removeTrailing.simps
  appendFix_def emptyResult_def

subsection \<open>Empty lines: the check and the compaction pass\<close>

lemma consecutiveLoop_eq:
  "consecutiveLoop lines i vs =
     vs @ map consecutiveViolation
            (filter (\<lambda>i. isBlank (lines ! i) \<and> isBlank (lines ! (i - 1))) [i..<length lines])"
proof (induction lines i vs rule: consecutiveLoop.induct)
  case (1 lines i vs)
  show ?case
  proof (cases "i < length lines")
    case True
    then have upt: "[i..<length lines] = i # [Suc i..<length lines]"
      by (simp add: upt_conv_Cons)
    show ?thesis
      using True 1 upt
      by (subst consecutiveLoop.simps) (simp add: isBlank_def consecutiveViolation_def)
  next
    case False
    then show ?thesis by (subst consecutiveLoop.simps) simp
  qed
qed

lemma CheckEmptyLines_eq:
  "CheckEmptyLines analysis filename lineNum =
     (if 0 < length (Lines analysis) \<and> isBlank (Lines analysis ! 0) then [leadingViolation] else []) @
     (if 1 < length (Lines analysis) \<and> isBlank (Lines analysis ! (length (Lines analysis) - 1))
      then [trailingViolation (int (length (Lines analysis)))] else []) @
     map consecutiveViolation
       (filter (\<lambda>i. isBlank (Lines analysis ! i) \<and> isBlank (Lines analysis ! (i - 1)))
          [1..<length (Lines analysis)])"
  by (simp add: CheckEmptyLines_def consecutiveLoop_eq Let_def isBlank_def leadingViolation_def
      trailingViolation_def)

text \<open>
  Claim C3. \<open>CheckEmptyLines\<close> reports one minor violation if line 1 is blank, one
  minor violation (at the last line) if the last line is blank and the file has more
  than one line, and one minor violation at line \<open>i + 1\<close> for every index \<open>i > 0\<close>
  at which \<open>lines[i]\<close> and \<open>lines[i-1]\<close> are both blank. The three groups are
  reported independently and one after the other: the four lines
  \<open>"", "", "int x;", ""\<close> get three violations, at the lines 1, 4 and 2.
\<close>

theorem CheckEmptyLines_reports:
  "CheckEmptyLines analysis filename lineNum =
     (if 0 < length (Lines analysis) \<and> isBlank (Lines analysis ! 0) then [leadingViolation] else []) @
     (if 1 < length (Lines analysis) \<and> isBlank (Lines analysis ! (length (Lines analysis) - 1))
      then [trailingViolation (int (length (Lines analysis)))] else []) @
     map consecutiveViolation
       (filter (\<lambda>i. isBlank (Lines analysis ! i) \<and> isBlank (Lines analysis ! (i - 1)))
          [1..<length (Lines analysis)])
   \<and> Severity leadingViolation = ''minor'' \<and> Line leadingViolation = 1
   \<and> Severity (trailingViolation n) = ''minor'' \<and> Line (trailingViolation n) = n
   \<and> Severity (consecutiveViolation i) = ''minor'' \<and> Line (consecutiveViolation i) = int i + 1
   \<and> CheckEmptyLines \<lparr>Filename = ''a.c'', Lines = ['''', '''', ''int x;'', ''''], Functions = []\<rparr>
        ''a.c'' 0 =
      [leadingViolation, trailingViolation 4, consecutiveViolation 1]"
proof -
  have "[1..<4] = [1, 2, 3::nat]" by (simp add: upt_conv_Cons)
  then have "CheckEmptyLines \<lparr>Filename = ''a.c'', Lines = ['''', '''', ''int x;'', ''''], Functions = []\<rparr>
        ''a.c'' 0 = [leadingViolation, trailingViolation 4, consecutiveViolation 1]"
    by (simp add: CheckEmptyLines_eq trim_eval)
  then show ?thesis
    using CheckEmptyLines_eq [of analysis filename lineNum]
    by (simp add: leadingViolation_def trailingViolation_def consecutiveViolation_def)
qed

lemma removeLeading_fst:
  "fst (removeLeading lines i r) = i + length (takeWhile isBlank (drop i lines))"
proof (induction lines i r rule: removeLeading.induct)
  case (1 lines i r)
  show ?case
  proof (cases "i < length lines \<and> TrimSpace (lines ! i) = []")
    case True
    then have "drop i lines = lines ! i # drop (Suc i) lines"
      by (simp add: Cons_nth_drop_Suc)
    moreover from True have "isBlank (lines ! i)" by (simp add: isBlank_def)
    ultimately show ?thesis
      using True 1 by (subst removeLeading.simps) simp
  next
    case False
    then have "i < length lines \<Longrightarrow> \<not> isBlank (lines ! i)" by (simp add: isBlank_def)
    then have "takeWhile isBlank (drop i lines) = []"
      by (cases "i < length lines") (auto simp: takeWhile_eq_Nil_iff hd_drop_conv_nth)
    with False show ?thesis
      by (subst removeLeading.simps) auto
  qed
qed

lemma removeLeading_snd:
  "\<exists>fs. snd (removeLeading lines i r) = r\<lparr>Fixes := Fixes r @ fs\<rparr> \<and>
        length fs = length (takeWhile isBlank (drop i lines)) \<and>
        (\<forall>f\<in>set fs. FixRule f = ''C-L2'')"
proof (induction lines i r rule: removeLeading.induct)
  case (1 lines i r)
  show ?case
  proof (cases "i < length lines \<and> TrimSpace (lines ! i) = []")
    case True
    let ?fix = "\<lparr>FixRule = ''C-L2'', FixDescription = ''Removed empty line at beginning of file'',
                 FixLine = int i + 1\<rparr>"
    from True have d: "drop i lines = lines ! i # drop (Suc i) lines"
      by (simp add: Cons_nth_drop_Suc)
    from 1 True obtain fs where fs:
      "snd (removeLeading lines (i + 1) (appendFix r ?fix)) =
         (appendFix r ?fix)\<lparr>Fixes := Fixes (appendFix r ?fix) @ fs\<rparr>"
      "length fs = length (takeWhile isBlank (drop (i + 1) lines))"
      "\<forall>f\<in>set fs. FixRule f = ''C-L2''"
      by blast
    have "snd (removeLeading lines i r) = r\<lparr>Fixes := Fixes r @ (?fix # fs)\<rparr>"
      using True fs(1) by (subst removeLeading.simps) (simp add: appendFix_def)
    moreover from True have "isBlank (lines ! i)" by (simp add: isBlank_def)
    then have "length (?fix # fs) = length (takeWhile isBlank (drop i lines))"
      using fs(2) d by simp
    moreover have "\<forall>f\<in>set (?fix # fs). FixRule f = ''C-L2''"
      using fs(3) by simp
    ultimately show ?thesis by blast
  next
    case False
    then have "i < length lines \<Longrightarrow> \<not> isBlank (lines ! i)" by (simp add: isBlank_def)
    then have "takeWhile isBlank (drop i lines) = []"
      by (cases "i < length lines") (auto simp: takeWhile_eq_Nil_iff hd_drop_conv_nth)
    moreover from False have "snd (removeLeading lines i r) = r"
      by (subst removeLeading.simps) auto
    ultimately show ?thesis by (intro exI [of _ "[]"]) simp
  qed
qed

lemma removeConsecutive_fst:
  "fst (removeConsecutive lines i prev fixed r) = fixed @ keptFrom prev (drop i lines)"
proof (induction lines i prev fixed r rule: removeConsecutive.induct)
  case (1 lines i prev fixed r)
  show ?case
  proof (cases "i < length lines")
    case True
    then have d: "drop i lines = lines ! i # drop (Suc i) lines"
      by (simp add: Cons_nth_drop_Suc)
    have bl: "(TrimSpace (lines ! i) = []) = isBlank (lines ! i)" by (simp add: isBlank_def)
    show ?thesis
      using True 1 d
      by (subst removeConsecutive.simps) (simp add: bl Let_def)
  next
    case False
    then show ?thesis by (subst removeConsecutive.simps) simp
  qed
qed

lemma removeConsecutive_snd:
  "i \<le> length lines \<Longrightarrow>
   \<exists>fs. snd (removeConsecutive lines i prev fixed r) = r\<lparr>Fixes := Fixes r @ fs\<rparr> \<and>
        length fs + length (keptFrom prev (drop i lines)) = length lines - i \<and>
        (\<forall>f\<in>set fs. FixRule f = ''C-L2'')"
proof (induction lines i prev fixed r rule: removeConsecutive.induct)
  case (1 lines i prev fixed r)
  show ?case
  proof (cases "i < length lines")
    case True
    then have d: "drop i lines = lines ! i # drop (Suc i) lines"
      by (simp add: Cons_nth_drop_Suc)
    show ?thesis
    proof (cases "TrimSpace (lines ! i) = [] \<and> prev")
      case skip: True
      let ?fix = "\<lparr>FixRule = ''C-L2'', FixDescription = ''Removed consecutive empty line'',
                   FixLine = int i + 1\<rparr>"
      from "1.IH"(1) [OF True refl] skip True obtain fs where fs:
        "snd (removeConsecutive lines (i + 1) prev fixed (appendFix r ?fix)) =
           (appendFix r ?fix)\<lparr>Fixes := Fixes (appendFix r ?fix) @ fs\<rparr>"
        "length fs + length (keptFrom prev (drop (i + 1) lines)) = length lines - (i + 1)"
        "\<forall>f\<in>set fs. FixRule f = ''C-L2''"
        by auto
      have "snd (removeConsecutive lines i prev fixed r) = r\<lparr>Fixes := Fixes r @ (?fix # fs)\<rparr>"
        using True skip fs(1) by (subst removeConsecutive.simps) (simp add: appendFix_def)
      moreover from skip have "isBlank (lines ! i)" by (simp add: isBlank_def)
      then have "length (?fix # fs) + length (keptFrom prev (drop i lines)) = length lines - i"
        using fs(2) d skip True by simp
      moreover have "\<forall>f\<in>set (?fix # fs). FixRule f = ''C-L2''"
        using fs(3) by simp
      ultimately show ?thesis by blast
    next
      case keep: False
      from "1.IH"(2) [OF True refl] keep True obtain fs where fs:
        "snd (removeConsecutive lines (i + 1) (TrimSpace (lines ! i) = []) (fixed @ [lines ! i]) r) =
           r\<lparr>Fixes := Fixes r @ fs\<rparr>"
        "length fs + length (keptFrom (TrimSpace (lines ! i) = []) (drop (i + 1) lines)) =
           length lines - (i + 1)"
        "\<forall>f\<in>set fs. FixRule f = ''C-L2''"
        by auto
      have "snd (removeConsecutive lines i prev fixed r) = r\<lparr>Fixes := Fixes r @ fs\<rparr>"
        using True keep fs(1) by (subst removeConsecutive.simps) (auto simp: Let_def)
      moreover have bl: "(TrimSpace (lines ! i) = []) = isBlank (lines ! i)"
        by (simp add: isBlank_def)
      have "length fs + length (keptFrom prev (drop i lines)) = length lines - i"
        using fs(2) d keep True by (auto simp: bl)
      ultimately show ?thesis using fs(3) by blast
    qed
  next
    case False
    with "1.prems" have "i = length lines" by simp
    moreover from False have "snd (removeConsecutive lines i prev fixed r) = r"
      by (subst removeConsecutive.simps) simp
    ultimately show ?thesis by (intro exI [of _ "[]"]) simp
  qed
qed

lemma removeTrailing_fst: "fst (removeTrailing fixed r) = specDropTrailing fixed"
proof (induction fixed r rule: removeTrailing.induct)
  case (1 fixed r)
  show ?case
  proof (cases "0 < length fixed \<and> TrimSpace (fixed ! (length fixed - 1)) = []")
    case True
    then have ne: "fixed \<noteq> []" by auto
    then have l: "fixed ! (length fixed - 1) = last fixed" by (simp add: last_conv_nth)
    have b: "take (length fixed - 1) fixed = butlast fixed" by (simp add: butlast_conv_take)
    have r: "rev fixed = last fixed # rev (butlast fixed)"
      using ne by (metis append_butlast_last_id rev_singleton_conv rev_append append_Cons append_Nil)
    have "isBlank (last fixed)" using True l by (simp add: isBlank_def)
    then have "specDropTrailing fixed = specDropTrailing (butlast fixed)"
      unfolding specDropTrailing_def by (subst r) simp
    with True 1 b show ?thesis
      by (subst removeTrailing.simps) simp
  next
    case False
    then have "fixed \<noteq> [] \<Longrightarrow> \<not> isBlank (last fixed)"
      by (simp add: isBlank_def last_conv_nth)
    then have "specDropTrailing fixed = fixed"
      by (cases fixed rule: rev_cases) (auto simp: specDropTrailing_def)
    with False show ?thesis
      by (subst removeTrailing.simps) auto
  qed
qed

lemma removeTrailing_snd:
  "\<exists>fs. snd (removeTrailing fixed r) = r\<lparr>Fixes := Fixes r @ fs\<rparr> \<and>
        length fs + length (fst (removeTrailing fixed r)) = length fixed \<and>
        (\<forall>f\<in>set fs. FixRule f = ''C-L2'')"
proof (induction fixed r rule: removeTrailing.induct)
  case (1 fixed r)
  show ?case
  proof (cases "0 < length fixed \<and> TrimSpace (fixed ! (length fixed - 1)) = []")
    case True
    let ?fix = "\<lparr>FixRule = ''C-L2'', FixDescription = ''Removed empty line at end of file'',
                 FixLine = int (length fixed)\<rparr>"
    let ?rest = "take (length fixed - 1) fixed"
    from 1 True obtain fs where fs:
      "snd (removeTrailing ?rest (appendFix r ?fix)) =
         (appendFix r ?fix)\<lparr>Fixes := Fixes (appendFix r ?fix) @ fs\<rparr>"
      "length fs + length (fst (removeTrailing ?rest (appendFix r ?fix))) = length ?rest"
      "\<forall>f\<in>set fs. FixRule f = ''C-L2''"
      by blast
    have unfold: "removeTrailing fixed r = removeTrailing ?rest (appendFix r ?fix)"
      using True by (subst removeTrailing.simps) simp
    have "snd (removeTrailing fixed r) = r\<lparr>Fixes := Fixes r @ (?fix # fs)\<rparr>"
      using fs(1) unfold by (simp add: appendFix_def)
    moreover have "length (?fix # fs) + length (fst (removeTrailing fixed r)) = length fixed"
      using fs(2) unfold True by simp
    moreover have "\<forall>f\<in>set (?fix # fs). FixRule f = ''C-L2''"
      using fs(3) by simp
    ultimately show ?thesis by blast
  next
    case False
    then have "removeTrailing fixed r = (fixed, r)"
      by (subst removeTrailing.simps) auto
    then show ?thesis by (intro exI [of _ "[]"]) simp
  qed
qed

lemma keptFrom_index:
  "keptFrom p ls =
     map (\<lambda>i. ls ! i)
       (filter (\<lambda>i. \<not> ((if i = 0 then p else isBlank (ls ! (i - 1))) \<and> isBlank (ls ! i)))
          [0..<length ls])"
proof (induction ls arbitrary: p)
  case Nil
  show ?case by simp
next
  case (Cons l ls)
  have upt: "[0..<length (l # ls)] = 0 # map Suc [0..<length ls]"
    by (simp add: upt_conv_Cons map_Suc_upt del: upt_Suc)
  have pred: "\<And>i. isBlank ((l # ls) ! i) = (if i = 0 then isBlank l else isBlank (ls ! (i - 1)))"
    by (case_tac i) simp_all
  show ?case
  proof (cases "isBlank l \<and> p")
    case True
    then show ?thesis
      unfolding upt using Cons.IH [of p]
      by (simp add: filter_map comp_def pred del: upt_Suc)
  next
    case False
    then show ?thesis
      unfolding upt using Cons.IH [of "isBlank l"]
      by (auto simp add: filter_map comp_def pred simp del: upt_Suc)
  qed
qed

lemma keptFrom_specSuppress: "keptFrom False ls = specSuppress ls"
proof -
  have "\<And>i. (\<not> ((if i = 0 then False else isBlank (ls ! (i - 1))) \<and> isBlank (ls ! i))) =
             (\<not> (0 < i \<and> isBlank (ls ! i) \<and> isBlank (ls ! (i - 1))))"
    by auto
  then show ?thesis
    by (simp add: keptFrom_index specSuppress_def)
qed

lemma fixEmptyLines_fst: "fst (fixEmptyLines lines r) = specCompact lines"
proof (cases "lines = []")
  case True
  then show ?thesis
    by (simp add: fixEmptyLines_def specCompact_def specDropTrailing_def specSuppress_def
        specDropLeading_def)
next
  case False
  obtain s r1 where a: "removeLeading lines 0 r = (s, r1)" by (cases "removeLeading lines 0 r")
  obtain fixed r2 where b: "removeConsecutive lines s False [] r1 = (fixed, r2)"
    by (cases "removeConsecutive lines s False [] r1")
  have s: "s = length (takeWhile isBlank lines)"
    using removeLeading_fst [of lines 0 r] a by simp
  have "drop s lines = dropWhile isBlank lines"
    unfolding s by (simp add: dropWhile_eq_drop)
  then have fixed: "fixed = specSuppress (specDropLeading lines)"
    using removeConsecutive_fst [of lines s False "[]" r1] b
    by (simp add: keptFrom_specSuppress specDropLeading_def)
  show ?thesis
    using False a b fixed removeTrailing_fst [of fixed r2]
    by (simp add: fixEmptyLines_def specCompact_def)
qed

lemma fixEmptyLines_snd:
  "\<exists>fs. snd (fixEmptyLines lines r) = r\<lparr>Fixes := Fixes r @ fs\<rparr> \<and>
        length fs + length (fst (fixEmptyLines lines r)) = length lines \<and>
        (\<forall>f\<in>set fs. FixRule f = ''C-L2'')"
proof (cases "lines = []")
  case True
  then show ?thesis
    by (intro exI [of _ "[]"]) (simp add: fixEmptyLines_def)
next
  case False
  obtain s r1 where a: "removeLeading lines 0 r = (s, r1)" by (cases "removeLeading lines 0 r")
  obtain fixed r2 where b: "removeConsecutive lines s False [] r1 = (fixed, r2)"
    by (cases "removeConsecutive lines s False [] r1")
  have s: "s = length (takeWhile isBlank lines)"
    using removeLeading_fst [of lines 0 r] a by simp
  then have sle: "s \<le> length lines" by (simp add: length_takeWhile_le)
  from removeLeading_snd [of lines 0 r] a s obtain fs1 where fs1:
    "r1 = r\<lparr>Fixes := Fixes r @ fs1\<rparr>" "length fs1 = s" "\<forall>f\<in>set fs1. FixRule f = ''C-L2''"
    by auto
  from removeConsecutive_snd [OF sle, of False "[]" r1] removeConsecutive_fst [of lines s False "[]" r1] b
  obtain fs2 where fs2:
    "r2 = r1\<lparr>Fixes := Fixes r1 @ fs2\<rparr>" "length fs2 + length fixed = length lines - s"
    "\<forall>f\<in>set fs2. FixRule f = ''C-L2''"
    by auto
  from removeTrailing_snd [of fixed r2] obtain fs3 where fs3:
    "snd (removeTrailing fixed r2) = r2\<lparr>Fixes := Fixes r2 @ fs3\<rparr>"
    "length fs3 + length (fst (removeTrailing fixed r2)) = length fixed"
    "\<forall>f\<in>set fs3. FixRule f = ''C-L2''"
    by blast
  have eq: "fixEmptyLines lines r = removeTrailing fixed r2"
    using False a b by (simp add: fixEmptyLines_def)
  have "snd (fixEmptyLines lines r) = r\<lparr>Fixes := Fixes r @ (fs1 @ fs2 @ fs3)\<rparr>"
    using eq fs1(1) fs2(1) fs3(1) by simp
  moreover have "length (fs1 @ fs2 @ fs3) + length (fst (fixEmptyLines lines r)) = length lines"
    using eq fs1(2) fs2(2) fs3(2) sle by simp
  moreover have "\<forall>f\<in>set (fs1 @ fs2 @ fs3). FixRule f = ''C-L2''"
    using fs1(3) fs2(3) fs3(3) by auto
  ultimately show ?thesis by blast
qed

text \<open>
  Claim C4. For every list of lines the empty-line compaction pass returns the lines
  without the leading blank lines, without every blank line that immediately follows
  another blank line (among the lines left after the leading blank ones are dropped) and
  without the trailing blank lines. It appends exactly one \<open>Fix\<close>, of rule C-L2, per
  removed line and changes nothing else in the result. The two examples of the
  specification come out as stated, with 2 fixes and with 1 fix.
\<close>

theorem fixEmptyLines_compaction:
  "fst (fixEmptyLines lines result) = specCompact lines
   \<and> (\<exists>fs. snd (fixEmptyLines lines result) = result\<lparr>Fixes := Fixes result @ fs\<rparr> \<and>
           length fs = length lines - length (fst (fixEmptyLines lines result)) \<and>
           (\<forall>f\<in>set fs. FixRule f = ''C-L2''))
   \<and> fst (fixEmptyLines ['''', '''', ''int main() {'', ''}''] emptyResult) =
        [''int main() {'', ''}'']
   \<and> length (Fixes (snd (fixEmptyLines ['''', '''', ''int main() {'', ''}''] emptyResult))) = 2
   \<and> fst (fixEmptyLines [''int x;'', '''', '''', ''int y;''] emptyResult) =
        [''int x;'', '''', ''int y;'']
   \<and> length (Fixes (snd (fixEmptyLines [''int x;'', '''', '''', ''int y;''] emptyResult))) = 1"
proof -
  from fixEmptyLines_snd [of lines result] obtain fs where fs:
    "snd (fixEmptyLines lines result) = result\<lparr>Fixes := Fixes result @ fs\<rparr>"
    "length fs + length (fst (fixEmptyLines lines result)) = length lines"
    "\<forall>f\<in>set fs. FixRule f = ''C-L2''"
    by blast
  from fs(2) have "length fs = length lines - length (fst (fixEmptyLines lines result))"
    by simp
  with fs have general:
    "\<exists>fs. snd (fixEmptyLines lines result) = result\<lparr>Fixes := Fixes result @ fs\<rparr> \<and>
           length fs = length lines - length (fst (fixEmptyLines lines result)) \<and>
           (\<forall>f\<in>set fs. FixRule f = ''C-L2'')"
    by blast
  have ex1: "fst (fixEmptyLines ['''', '''', ''int main() {'', ''}''] emptyResult) =
        [''int main() {'', ''}'']
     \<and> length (Fixes (snd (fixEmptyLines ['''', '''', ''int main() {'', ''}''] emptyResult))) = 2"
    by (simp add: fixEmptyLines_eval trim_eval)
  have ex2: "fst (fixEmptyLines [''int x;'', '''', '''', ''int y;''] emptyResult) =
        [''int x;'', '''', ''int y;'']
     \<and> length (Fixes (snd (fixEmptyLines [''int x;'', '''', '''', ''int y;''] emptyResult))) = 1"
    by (simp add: fixEmptyLines_eval trim_eval)
  show ?thesis
    using fixEmptyLines_fst [of lines result] general ex1 ex2 by blast
qed

theorem fixEmptyLines_compaction_witness:
  "fst (fixEmptyLines [''int x;'', '''', ''  '', ''int y;'', ''''] emptyResult) =
     [''int x;'', '''', ''int y;'']
   \<and> (\<exists>f g. Fixes (snd (fixEmptyLines [''int x;'', '''', ''  '', ''int y;'', ''''] emptyResult)) = [f, g]
        \<and> FixRule f = ''C-L2'' \<and> FixRule g = ''C-L2'')"
proof -
  let ?in = "[''int x;'', '''', ''  '', ''int y;'', '''']"
  have up: "[0..<4] = [0, 1, 2, 3::nat]" "[0..<5] = [0, 1, 2, 3, 4::nat]"
    by (simp_all add: upt_conv_Cons)
  have c: "specCompact ?in = [''int x;'', '''', ''int y;'']"
    by (simp add: specCompact_def specDropTrailing_def specSuppress_def specDropLeading_def
        trim_eval up)
  from fixEmptyLines_compaction [of ?in emptyResult] obtain fs where fs:
    "fst (fixEmptyLines ?in emptyResult) = specCompact ?in"
    "snd (fixEmptyLines ?in emptyResult) = emptyResult\<lparr>Fixes := Fixes emptyResult @ fs\<rparr>"
    "length fs = length ?in - length (fst (fixEmptyLines ?in emptyResult))"
    "\<forall>f\<in>set fs. FixRule f = ''C-L2''"
    by blast
  from fs(1,3) c have "length fs = 2" by simp
  then obtain f g where fg: "fs = [f, g]"
    by (metis One_nat_def Suc_1 length_0_conv length_Suc_conv)
  with fs(2,4) have "Fixes (snd (fixEmptyLines ?in emptyResult)) = [f, g]"
    "FixRule f = ''C-L2''" "FixRule g = ''C-L2''"
    by (simp_all add: emptyResult_def)
  with fs(1) c show ?thesis by auto
qed

lemma adjacentBlank_index:
  "adjacentBlank xs \<longleftrightarrow> (\<exists>i. 0 < i \<and> i < length xs \<and> isBlank (xs ! i) \<and> isBlank (xs ! (i - 1)))"
proof (induction xs rule: adjacentBlank.induct)
  case (1 x y ys)
  show ?case
  proof
    assume "adjacentBlank (x # y # ys)"
    then consider "isBlank x \<and> isBlank y" | "adjacentBlank (y # ys)" by auto
    then show "\<exists>i. 0 < i \<and> i < length (x # y # ys) \<and> isBlank ((x # y # ys) ! i) \<and>
                   isBlank ((x # y # ys) ! (i - 1))"
    proof cases
      case 1
      then show ?thesis by (intro exI [of _ 1]) simp
    next
      case 2
      with "1.IH" obtain i where "0 < i" "i < length (y # ys)" "isBlank ((y # ys) ! i)"
        "isBlank ((y # ys) ! (i - 1))" by blast
      then show ?thesis by (intro exI [of _ "Suc i"]) (simp add: nth_Cons')
    qed
  next
    assume "\<exists>i. 0 < i \<and> i < length (x # y # ys) \<and> isBlank ((x # y # ys) ! i) \<and>
                   isBlank ((x # y # ys) ! (i - 1))"
    then obtain i where i: "0 < i" "i < length (x # y # ys)" "isBlank ((x # y # ys) ! i)"
        "isBlank ((x # y # ys) ! (i - 1))" by blast
    show "adjacentBlank (x # y # ys)"
    proof (cases "i = 1")
      case True
      with i show ?thesis by simp
    next
      case False
      with i obtain j where j: "i = Suc j" "0 < j" by (cases i) auto
      with i have "j < length (y # ys)" "isBlank ((y # ys) ! j)" "isBlank ((y # ys) ! (j - 1))"
        by (simp_all add: nth_Cons')
      with j "1.IH" have "adjacentBlank (y # ys)" by blast
      then show ?thesis by simp
    qed
  qed
qed simp_all

lemma adjacentBlank_append: "adjacentBlank xs \<Longrightarrow> adjacentBlank (xs @ ys)"
  by (induction xs rule: adjacentBlank.induct) auto

lemma keptFrom_hd: "p \<Longrightarrow> keptFrom p ls \<noteq> [] \<Longrightarrow> \<not> isBlank (hd (keptFrom p ls))"
  by (induction ls) (auto split: if_splits)

lemma keptFrom_no_adjacent: "\<not> adjacentBlank (keptFrom p ls)"
proof (induction ls arbitrary: p)
  case Nil
  show ?case by simp
next
  case (Cons l ls)
  show ?case
  proof (cases "isBlank l \<and> p")
    case True
    then show ?thesis using Cons.IH [of p] by simp
  next
    case False
    show ?thesis
    proof (cases "keptFrom (isBlank l) ls")
      case Nil
      with False show ?thesis by auto
    next
      case (Cons y ys)
      have "\<not> adjacentBlank (y # ys)" using Cons.IH [of "isBlank l"] Cons by simp
      moreover have "isBlank l \<Longrightarrow> \<not> isBlank y"
        using keptFrom_hd [of "isBlank l" ls] Cons by simp
      ultimately show ?thesis using False Cons by auto
    qed
  qed
qed

lemma specDropTrailing_prefix: "\<exists>ys. xs = specDropTrailing xs @ ys"
proof -
  have "rev xs = takeWhile isBlank (rev xs) @ dropWhile isBlank (rev xs)" by simp
  then have "xs = rev (dropWhile isBlank (rev xs)) @ rev (takeWhile isBlank (rev xs))"
    by (metis rev_append rev_rev_ident)
  then show ?thesis unfolding specDropTrailing_def by blast
qed

lemma specDropTrailing_last: "specDropTrailing xs \<noteq> [] \<Longrightarrow> \<not> isBlank (last (specDropTrailing xs))"
  unfolding specDropTrailing_def
  by (simp add: last_rev hd_dropWhile)

lemma specCompact_hd: "specCompact ls \<noteq> [] \<Longrightarrow> \<not> isBlank (hd (specCompact ls))"
proof -
  assume ne: "specCompact ls \<noteq> []"
  let ?m = "specSuppress (specDropLeading ls)"
  obtain ys where ys: "?m = specCompact ls @ ys"
    using specDropTrailing_prefix [of ?m] by (auto simp: specCompact_def)
  with ne have hd: "hd (specCompact ls) = hd ?m" by (metis hd_append2)
  from ys ne have mne: "?m \<noteq> []" by auto
  have "dropWhile isBlank ls = [] \<Longrightarrow> ?m = []"
    by (simp add: specSuppress_def specDropLeading_def)
  with mne have dne: "dropWhile isBlank ls \<noteq> []" by blast
  then obtain l rest where d: "dropWhile isBlank ls = l # rest" by (cases "dropWhile isBlank ls") auto
  then have "\<not> isBlank l" by (metis hd_dropWhile list.sel(1) list.distinct(1))
  moreover have "hd ?m = l"
    using d by (simp add: keptFrom_specSuppress [symmetric] specDropLeading_def)
  ultimately show ?thesis using hd by simp
qed

lemma specCompact_last: "specCompact ls \<noteq> [] \<Longrightarrow> \<not> isBlank (last (specCompact ls))"
  unfolding specCompact_def by (rule specDropTrailing_last)

lemma specCompact_no_adjacent: "\<not> adjacentBlank (specCompact ls)"
proof
  assume a: "adjacentBlank (specCompact ls)"
  let ?m = "specSuppress (specDropLeading ls)"
  obtain ys where ys: "?m = specCompact ls @ ys"
    using specDropTrailing_prefix [of ?m] by (auto simp: specCompact_def)
  from a have "adjacentBlank (specCompact ls @ ys)" by (rule adjacentBlank_append)
  with ys have "adjacentBlank ?m" by simp
  then show False
    using keptFrom_no_adjacent [of False "specDropLeading ls"]
    by (simp add: keptFrom_specSuppress)
qed

lemma CheckEmptyLines_Nil_iff:
  "CheckEmptyLines analysis filename lineNum = [] \<longleftrightarrow>
     (Lines analysis \<noteq> [] \<longrightarrow> \<not> isBlank (hd (Lines analysis))) \<and>
     (Lines analysis \<noteq> [] \<longrightarrow> \<not> isBlank (last (Lines analysis))) \<and>
     \<not> adjacentBlank (Lines analysis)"
proof -
  let ?ls = "Lines analysis"
  have third: "(filter (\<lambda>i. isBlank (?ls ! i) \<and> isBlank (?ls ! (i - 1))) [1..<length ?ls] = []) =
        (\<not> adjacentBlank ?ls)"
    by (auto simp: filter_empty_conv adjacentBlank_index)
  show ?thesis
  proof (cases "?ls = []")
    case True
    then show ?thesis by (simp add: CheckEmptyLines_eq)
  next
    case False
    then have h: "?ls ! 0 = hd ?ls" and l: "?ls ! (length ?ls - Suc 0) = last ?ls"
      by (simp_all add: hd_conv_nth last_conv_nth)
    have one: "length ?ls = 1 \<Longrightarrow> last ?ls = hd ?ls"
      by (cases ?ls) auto
    have len: "length ?ls = 1 \<or> 1 < length ?ls" using False by (cases ?ls) auto
    show ?thesis
      using False third len one
      by (auto simp: CheckEmptyLines_eq h l)
  qed
qed

text \<open>
  Claim C10. For every list of lines, the output of the empty-line compaction pass has
  no blank first line, no blank last line and no two adjacent blank lines, and
  \<open>CheckEmptyLines\<close> reports no violation on it. The two statements are equivalent:
  \<open>CheckEmptyLines\<close> reports no violation on a list of lines exactly when the list
  has these three properties.
\<close>

theorem fixEmptyLines_output_clean:
  "(fst (fixEmptyLines lines result) \<noteq> [] \<longrightarrow>
      \<not> isBlank (hd (fst (fixEmptyLines lines result))) \<and>
      \<not> isBlank (last (fst (fixEmptyLines lines result))))
   \<and> (\<forall>i. 0 < i \<and> i < length (fst (fixEmptyLines lines result)) \<longrightarrow>
          \<not> (isBlank (fst (fixEmptyLines lines result) ! i) \<and>
             isBlank (fst (fixEmptyLines lines result) ! (i - 1))))
   \<and> CheckEmptyLines
        \<lparr>Filename = filename, Lines = fst (fixEmptyLines lines result), Functions = functions\<rparr>
        filename lineNum = []
   \<and> (CheckEmptyLines analysis filename lineNum = [] \<longleftrightarrow>
        (Lines analysis \<noteq> [] \<longrightarrow>
           \<not> isBlank (hd (Lines analysis)) \<and> \<not> isBlank (last (Lines analysis))) \<and>
        (\<forall>i. 0 < i \<and> i < length (Lines analysis) \<longrightarrow>
           \<not> (isBlank (Lines analysis ! i) \<and> isBlank (Lines analysis ! (i - 1)))))"
proof -
  let ?out = "fst (fixEmptyLines lines result)"
  have out: "?out = specCompact lines" by (rule fixEmptyLines_fst)
  have a: "?out \<noteq> [] \<longrightarrow> \<not> isBlank (hd ?out) \<and> \<not> isBlank (last ?out)"
    unfolding out using specCompact_hd specCompact_last by blast
  have b: "\<not> adjacentBlank ?out"
    unfolding out by (rule specCompact_no_adjacent)
  then have c: "\<forall>i. 0 < i \<and> i < length ?out \<longrightarrow> \<not> (isBlank (?out ! i) \<and> isBlank (?out ! (i - 1)))"
    unfolding adjacentBlank_index by blast
  have d: "CheckEmptyLines \<lparr>Filename = filename, Lines = ?out, Functions = functions\<rparr>
        filename lineNum = []"
    unfolding CheckEmptyLines_Nil_iff using a b by simp
  have e: "CheckEmptyLines analysis filename lineNum = [] \<longleftrightarrow>
        (Lines analysis \<noteq> [] \<longrightarrow>
           \<not> isBlank (hd (Lines analysis)) \<and> \<not> isBlank (last (Lines analysis))) \<and>
        (\<forall>i. 0 < i \<and> i < length (Lines analysis) \<longrightarrow>
           \<not> (isBlank (Lines analysis ! i) \<and> isBlank (Lines analysis ! (i - 1))))"
    unfolding CheckEmptyLines_Nil_iff adjacentBlank_index by blast
  show ?thesis using a c d e by blast
qed

theorem fixEmptyLines_output_clean_witness:
  "fst (fixEmptyLines ['''', ''int x;'', '''', '' '', ''int y;'', ''''] emptyResult) =
     [''int x;'', '''', ''int y;'']
   \<and> \<not> isBlank (hd (fst (fixEmptyLines ['''', ''int x;'', '''', '' '', ''int y;'', ''''] emptyResult)))
   \<and> \<not> isBlank (last (fst (fixEmptyLines ['''', ''int x;'', '''', '' '', ''int y;'', ''''] emptyResult)))
   \<and> \<not> (isBlank (fst (fixEmptyLines ['''', ''int x;'', '''', '' '', ''int y;'', ''''] emptyResult) ! 2) \<and>
         isBlank (fst (fixEmptyLines ['''', ''int x;'', '''', '' '', ''int y;'', ''''] emptyResult) ! 1))
   \<and> CheckEmptyLines
        \<lparr>Filename = ''a.c'',
         Lines = fst (fixEmptyLines ['''', ''int x;'', '''', '' '', ''int y;'', ''''] emptyResult),
         Functions = []\<rparr> ''a.c'' 0 = []"
proof -
  let ?in = "['''', ''int x;'', '''', '' '', ''int y;'', '''']"
  let ?out = "fst (fixEmptyLines ?in emptyResult)"
  have out: "?out = [''int x;'', '''', ''int y;'']"
    by (simp add: fixEmptyLines_eval trim_eval)
  then have ne: "?out \<noteq> []" and len: "(0::nat) < 2 \<and> 2 < length ?out"
    by simp_all
  note inst = fixEmptyLines_output_clean [of ?in emptyResult "''a.c''" "[]" 0]
  from inst ne have a: "\<not> isBlank (hd ?out) \<and> \<not> isBlank (last ?out)" by blast
  from inst len have b: "\<not> (isBlank (?out ! 2) \<and> isBlank (?out ! (2 - 1)))" by blast
  from inst have c: "CheckEmptyLines \<lparr>Filename = ''a.c'', Lines = ?out, Functions = []\<rparr> ''a.c'' 0 = []"
    by blast
  have "(2::nat) - 1 = 1" by simp
  with a b c out show ?thesis by metis
qed

subsection \<open>Indentation normalization\<close>

lemma fixIndentationLoop_Cons:
  "fixIndentationLoop (line # rest) i fixed r =
     (if startsWithSpace line then
        fixIndentationLoop rest (i + 1) (fixed[i := specNormalized line])
          (appendFix r (indentationFix i line))
      else fixIndentationLoop rest (i + 1) (fixed[i := line]) r)"
  by (cases line)
    (simp_all add: startsWithSpace_def specNormalized_def indentationFix_def leadingSpaces_def
      Let_def)

lemma fixIndentationLoop_fst:
  "length fixed = i + length rest \<Longrightarrow>
   fst (fixIndentationLoop rest i fixed r) =
     take i fixed @ map (\<lambda>line. if startsWithSpace line then specNormalized line else line) rest"
proof (induction rest arbitrary: i fixed r)
  case Nil
  then show ?case by simp
next
  case (Cons line rest)
  have i: "i < length fixed" using Cons.prems by simp
  have t: "\<And>v. take (Suc i) (fixed[i := v]) = take i fixed @ [v]"
    using i by (simp add: take_Suc_conv_app_nth)
  have l: "\<And>v. length (fixed[i := v]) = Suc i + length rest" using Cons.prems by simp
  show ?case
    using Cons.IH [OF l] t
    by (simp add: fixIndentationLoop_Cons del: fixIndentationLoop.simps)
qed

lemma fixIndentationLoop_snd:
  "snd (fixIndentationLoop rest i fixed r) =
     r\<lparr>Fixes := Fixes r @ map (\<lambda>(k, line). indentationFix k line)
                             (filter (\<lambda>(k, line). startsWithSpace line) (enumerate i rest))\<rparr>"
proof (induction rest arbitrary: i fixed r)
  case Nil
  then show ?case by simp
next
  case (Cons line rest)
  show ?case
    using Cons.IH
    by (simp add: fixIndentationLoop_Cons appendFix_def del: fixIndentationLoop.simps)
qed

lemma specNormalized_changed:
  "startsWithSpace line \<Longrightarrow> specNormalized line \<noteq> line \<longleftrightarrow> 4 \<le> leadingSpaces line"
proof -
  assume s: "startsWithSpace line"
  let ?n = "leadingSpaces line"
  have split: "line = replicate ?n (CHR '' '') @ drop ?n line"
  proof -
    have "takeWhile (\<lambda>c. c = CHR '' '') line = replicate ?n (CHR '' '')"
      unfolding leadingSpaces_def
      by (rule replicate_length_same [symmetric]) (auto dest: set_takeWhileD)
    moreover have "line = takeWhile (\<lambda>c. c = CHR '' '') line @ drop ?n line"
      unfolding leadingSpaces_def by (metis takeWhile_dropWhile_id dropWhile_eq_drop)
    ultimately show ?thesis by simp
  qed
  show ?thesis
  proof (cases "4 \<le> ?n")
    case True
    then have "0 < ?n div 4" by (simp add: div_greater_zero_iff)
    then have "hd (specNormalized line) = CHR 0x09"
      by (cases "?n div 4") (simp_all add: specNormalized_def)
    moreover have "hd line = CHR '' ''" using s by (simp add: startsWithSpace_def)
    ultimately show ?thesis using True by auto
  next
    case False
    then have "?n div 4 = 0" "?n mod 4 = ?n" by simp_all
    then have "specNormalized line = replicate ?n (CHR '' '') @ drop ?n line"
      by (simp add: specNormalized_def)
    with split False show ?thesis by simp
  qed
qed

lemmas fixIndentation_eval = fixIndentation_def appendFix_def emptyResult_def Itoa_def digits.simps

text \<open>
  Claim C5 (amended). The indentation normalization pass rewrites exactly the lines whose
  first character is a space: every complete group of 4 leading spaces becomes one tab,
  the remaining 0 to 3 spaces stay spaces and the rest of the line is unchanged; every
  other line is copied. It records exactly one \<open>Fix\<close> per line whose first character
  is a space, in the order of the lines, whether or not the rewriting changes the line:
  a line with 1 to 3 leading spaces gets a \<open>Fix\<close> and keeps its text, and the text
  of a line changes exactly when it has 4 leading spaces or more.
\<close>

theorem fixIndentation_rewrites:
  "fst (fixIndentation lines result) =
     map (\<lambda>line. if startsWithSpace line then specNormalized line else line) lines
   \<and> snd (fixIndentation lines result) =
       result\<lparr>Fixes := Fixes result @
                 map (\<lambda>(i, line). indentationFix i line)
                   (filter (\<lambda>(i, line). startsWithSpace line) (enumerate 0 lines))\<rparr>
   \<and> (startsWithSpace line \<longrightarrow> (specNormalized line \<noteq> line \<longleftrightarrow> 4 \<le> leadingSpaces line))"
  using fixIndentationLoop_fst [of "replicate (length lines) []" 0 lines result]
    fixIndentationLoop_snd [of lines 0 "replicate (length lines) []" result]
    specNormalized_changed [of line]
  by (simp add: fixIndentation_def)

theorem fixIndentation_rewrites_witness:
  "fst (fixIndentation [''     int x;'', ''int y;'', '' int z;''] emptyResult) =
     [[CHR 0x09] @ '' int x;'', ''int y;'', '' int z;'']
   \<and> Fixes (snd (fixIndentation [''     int x;'', ''int y;'', '' int z;''] emptyResult)) =
       [indentationFix 0 ''     int x;'', indentationFix 2 '' int z;'']
   \<and> specNormalized ''     int x;'' \<noteq> ''     int x;''"
proof -
  have s: "startsWithSpace ''     int x;''" by (simp add: startsWithSpace_def)
  have n: "leadingSpaces ''     int x;'' = 5" by (simp add: leadingSpaces_def)
  have e: "enumerate 0 [''     int x;'', ''int y;'', '' int z;''] =
    [(0, ''     int x;''), (1, ''int y;''), (2, '' int z;'')]" by (simp add: enumerate_eq_zip upt_conv_Cons)
  show ?thesis
    using fixIndentation_rewrites [of "[''     int x;'', ''int y;'', '' int z;'']" emptyResult "''     int x;''"] s n
    by (simp add: e startsWithSpace_def specNormalized_def leadingSpaces_def emptyResult_def
        numeral_2_eq_2)
qed

text \<open>
  The claim as stated, one \<open>Fix\<close> per modified line, fails on a line with two
  leading spaces: no line of the output differs from the input and one \<open>Fix\<close> is
  recorded.
\<close>

theorem fixIndentation_counterexample:
  "fst (fixIndentation [''  int x;''] emptyResult) = [''  int x;'']
   \<and> modifiedLines [''  int x;''] (fst (fixIndentation [''  int x;''] emptyResult)) = 0
   \<and> Fixes (snd (fixIndentation [''  int x;''] emptyResult)) =
       [\<lparr>FixRule = ''C-L3'', FixDescription = ''Replaced 2 spaces with 0 tabs'', FixLine = 1\<rparr>]
   \<and> length (Fixes (snd (fixIndentation [''  int x;''] emptyResult))) \<noteq>
       modifiedLines [''  int x;''] (fst (fixIndentation [''  int x;''] emptyResult))"
  by (simp add: fixIndentation_eval modifiedLines_def)

subsection \<open>snake_case\<close>

lemma isSnakeCaseLoop_index:
  "isSnakeCaseLoop s i rest \<longleftrightarrow>
     (\<forall>k<length rest. \<not> inRange (CHR ''A'') (CHR ''Z'') (rest ! k) \<and>
        \<not> (rest ! k = CHR ''_'' \<and> (i + k = 0 \<or> int (i + k) = int (length s) - 1)))"
proof (induction rest arbitrary: i)
  case Nil
  show ?case by simp
next
  case (Cons r rest)
  have split: "\<And>P. (\<forall>k<Suc (length rest). P k) \<longleftrightarrow> P 0 \<and> (\<forall>k<length rest. P (Suc k))"
    by (auto simp: less_Suc_eq_0_disj)
  show ?case
    using Cons.IH [of "i + 1"] by (auto simp: split)
qed

lemma isSnakeCase_iff:
  "isSnakeCase s \<longleftrightarrow>
     s \<noteq> [] \<and> (\<forall>c\<in>set s. \<not> inRange (CHR ''A'') (CHR ''Z'') c) \<and>
     hd s \<noteq> CHR ''_'' \<and> last s \<noteq> CHR ''_''"
proof (cases "s = []")
  case True
  then show ?thesis by (simp add: isSnakeCase_def)
next
  case False
  then have h: "hd s = s ! 0" and l: "last s = s ! (length s - 1)" and pos: "0 < length s"
    by (simp_all add: hd_conv_nth last_conv_nth)
  have edge: "\<And>k. k < length s \<Longrightarrow> (int k = int (length s) - 1) = (k = length s - 1)"
    by auto
  have "isSnakeCase s \<longleftrightarrow>
     (\<forall>k<length s. \<not> inRange (CHR ''A'') (CHR ''Z'') (s ! k) \<and>
        \<not> (s ! k = CHR ''_'' \<and> (k = 0 \<or> k = length s - 1)))"
    using False by (auto simp: isSnakeCase_def isSnakeCaseLoop_index edge)
  also have "\<dots> \<longleftrightarrow> (\<forall>k<length s. \<not> inRange (CHR ''A'') (CHR ''Z'') (s ! k)) \<and>
        s ! 0 \<noteq> CHR ''_'' \<and> s ! (length s - 1) \<noteq> CHR ''_''"
    using pos by (metis diff_less zero_less_one)
  finally show ?thesis
    using False by (simp add: h l all_set_conv_all_nth)
qed

lemma specSnakeCase_accepted: "specSnakeCase s \<Longrightarrow> isSnakeCase s"
  unfolding isSnakeCase_iff specSnakeCase_def
  by (auto simp: inRange_def)

lemma checkFunctionNamesLoop_eq:
  "checkFunctionNamesLoop fns vs =
     vs @ map functionNameViolation
            (filter (\<lambda>fn. \<not> isSnakeCase (Name fn) \<and> Name fn \<noteq> ''main'') fns)"
  by (induction fns arbitrary: vs) (simp_all add: functionNameViolation_def)

lemmas path_eval = Base_def Ext_def TrimSuffix_def HasSuffix_def Let_def

text \<open>
  Claim C6 (amended). The snake_case predicate accepts exactly the nonempty strings that
  contain no upper-case ASCII letter and in which the underscore is neither the first nor
  the last character. Every nonempty string of lower-case letters, digits and
  underscores with no underscore at either end is accepted, and so is a string with
  other characters, a hyphen or a space for instance. Rule C-O1 applies the predicate to
  the base name without its extension and reports at line 0; rule C-F1 applies it to the
  function names other than \<open>main\<close>.
\<close>

theorem isSnakeCase_accepts:
  "(isSnakeCase s \<longleftrightarrow>
      s \<noteq> [] \<and> (\<forall>c\<in>set s. \<not> inRange (CHR ''A'') (CHR ''Z'') c) \<and>
      hd s \<noteq> CHR ''_'' \<and> last s \<noteq> CHR ''_'')
   \<and> (specSnakeCase s \<longrightarrow> isSnakeCase s)
   \<and> CheckFilename analysis filename lineNum =
       (if isSnakeCase (TrimSuffix (Base filename) (Ext (Base filename))) then []
        else [filenameViolation])
   \<and> Line filenameViolation = 0
   \<and> CheckFunctionNames analysis filename lineNum =
       map functionNameViolation
         (filter (\<lambda>fn. \<not> isSnakeCase (Name fn) \<and> Name fn \<noteq> ''main'') (Functions analysis))"
  using isSnakeCase_iff [of s] specSnakeCase_accepted [of s]
  by (simp add: CheckFilename_def CheckFunctionNames_def checkFunctionNamesLoop_eq
      filenameViolation_def Let_def)

theorem isSnakeCase_accepts_witness:
  "specSnakeCase ''my_file_2'' \<and> isSnakeCase ''my_file_2''
   \<and> \<not> isSnakeCase ''MyFile'' \<and> \<not> isSnakeCase ''_file'' \<and> \<not> isSnakeCase ''file_''
   \<and> CheckFilename \<lparr>Filename = ''src/MyFile.c'', Lines = [], Functions = []\<rparr> ''src/MyFile.c'' 0 =
       [filenameViolation]"
proof -
  have a: "specSnakeCase ''my_file_2''" by (simp add: specSnakeCase_def inRange_def)
  have b: "TrimSuffix (Base ''src/MyFile.c'') (Ext (Base ''src/MyFile.c'')) = ''MyFile''"
    by (simp add: path_eval)
  show ?thesis
    using a isSnakeCase_accepts [of "''my_file_2''"]
      isSnakeCase_accepts [of "''MyFile''" "\<lparr>Filename = ''src/MyFile.c'', Lines = [], Functions = []\<rparr>"
        "''src/MyFile.c''" 0]
      isSnakeCase_accepts [of "''_file''"] isSnakeCase_accepts [of "''file_''"]
    by (simp add: b inRange_def)
qed

text \<open>
  The claim as stated, that only strings of lower-case letters, digits and underscores
  are accepted, fails on \<open>my-file\<close>: the predicate accepts it and rule C-O1 reports
  nothing for \<open>src/my-file.c\<close>.
\<close>

theorem isSnakeCase_counterexample:
  "isSnakeCase ''my-file'' \<and> \<not> specSnakeCase ''my-file''
   \<and> CheckFilename \<lparr>Filename = ''src/my-file.c'', Lines = [], Functions = []\<rparr>
        ''src/my-file.c'' 0 = []"
  by (simp add: isSnakeCase_def specSnakeCase_def inRange_def CheckFilename_def path_eval)

subsection \<open>Function extraction\<close>


lemma IndexFrom_char:
  "IndexFrom i s [c] =
     (if c \<in> set s then int (i + length (takeWhile (\<lambda>x. x \<noteq> c) s)) else - 1)"
  by (induction s arbitrary: i) (auto simp: HasPrefix_def)

lemma Index_char:
  "Index s [c] = (if c \<in> set s then int (length (takeWhile (\<lambda>x. x \<noteq> c) s)) else - 1)"
  by (simp add: Index_def IndexFrom_char)

lemma take_Index_char:
  "0 \<le> Index s [c] \<Longrightarrow> take (nat (Index s [c])) s = takeWhile (\<lambda>x. x \<noteq> c) s"
  by (auto simp: Index_char takeWhile_eq_take [symmetric] split: if_splits)

lemma drop_Index_char:
  "0 \<le> Index s [c] \<Longrightarrow> drop (nat (Index s [c] + 1)) s = drop 1 (dropWhile (\<lambda>x. x \<noteq> c) s)"
proof -
  assume "0 \<le> Index s [c]"
  then have "nat (Index s [c] + 1) = 1 + length (takeWhile (\<lambda>x. x \<noteq> c) s)"
    by (auto simp: Index_char split: if_splits)
  then show ?thesis
    by (simp add: dropWhile_eq_drop drop_Suc tl_drop)
qed

lemma length_Split: "length (Split s c) = Suc (length (filter (\<lambda>x. x = c) s))"
  by (induction s) (auto split: list.splits)

lemma Count_Split: "Count s c + 1 = int (length (Split s c))"
  by (simp add: Count_def length_Split)

lemma detectHeader_shape:
  "detectHeader lines i cur = cur \<or>
   (0 < Index (TrimSpace (lines ! i)) ''('' \<and>
    0 < Index (drop (nat (Index (TrimSpace (lines ! i)) ''('' + 1)) (TrimSpace (lines ! i))) '')'' \<and>
    (\<exists>name. detectHeader lines i cur =
       Some \<lparr>Name = name, StartLine = int i + 1, EndLine = 0,
             ParamCount =
               (let params = take (nat (Index (drop (nat (Index (TrimSpace (lines ! i)) ''('' + 1))
                                   (TrimSpace (lines ! i))) '')''))
                               (drop (nat (Index (TrimSpace (lines ! i)) ''('' + 1)) (TrimSpace (lines ! i)))
                in if TrimSpace params \<noteq> [] \<and> TrimSpace params \<noteq> ''void''
                   then Count params (CHR '','') + 1 else 0)\<rparr>))"
  unfolding detectHeader_def Let_def by simp

lemma detectHeader_cases:
  assumes "detectHeader lines i cur = Some f"
  shows "cur = Some f \<or>
         (StartLine f = int i + 1 \<and>
          ParamCount f = specParamCount (firstParenText (TrimSpace (lines ! i))))"
proof -
  let ?t = "TrimSpace (lines ! i)"
  let ?pp = "Index ?t ''(''"
  let ?part = "drop (nat (?pp + 1)) ?t"
  let ?cp = "Index ?part '')''"
  let ?params = "take (nat ?cp) ?part"
  have params: "0 < ?pp \<Longrightarrow> 0 < ?cp \<Longrightarrow> ?params = firstParenText ?t"
  proof -
    assume a: "0 < ?pp" and b: "0 < ?cp"
    from a have "?part = drop 1 (dropWhile (\<lambda>x. x \<noteq> CHR ''('') ?t)"
      by (intro drop_Index_char) simp
    moreover from b have "?params = takeWhile (\<lambda>x. x \<noteq> CHR '')'') ?part"
      by (intro take_Index_char) simp
    ultimately show ?thesis by (simp add: firstParenText_def)
  qed
  have count: "(if TrimSpace ?params \<noteq> [] \<and> TrimSpace ?params \<noteq> ''void''
                then Count ?params (CHR '','') + 1 else 0) = specParamCount ?params"
    by (simp add: specParamCount_def Count_Split)
  from detectHeader_shape [of lines i cur] consider
    "detectHeader lines i cur = cur"
    | name where "0 < ?pp" "0 < ?cp"
        "detectHeader lines i cur =
           Some \<lparr>Name = name, StartLine = int i + 1, EndLine = 0,
                 ParamCount = (if TrimSpace ?params \<noteq> [] \<and> TrimSpace ?params \<noteq> ''void''
                               then Count ?params (CHR '','') + 1 else 0)\<rparr>"
    unfolding Let_def by blast
  then show ?thesis
  proof cases
    case 1
    with assms show ?thesis by simp
  next
    case 2
    from 2(3) assms have "f = \<lparr>Name = name, StartLine = int i + 1, EndLine = 0,
                 ParamCount = specParamCount ?params\<rparr>"
      unfolding count by simp
    then show ?thesis using params [OF 2(1,2)] by simp
  qed
qed

lemma extractLoop_end: "\<not> i < length lines \<Longrightarrow> extractLoop lines i fns cur bc = fns"
  by (subst extractLoop.simps) simp

lemma extractLoop_None:
  "i < length lines \<Longrightarrow> detectHeader lines i cur = None \<Longrightarrow>
   extractLoop lines i fns cur bc =
     extractLoop lines (i + 1) fns None
       (bc + Count (lines ! i) (CHR ''{'') - Count (lines ! i) (CHR ''}''))"
  by (subst extractLoop.simps) (simp add: Let_def)

lemma extractLoop_close:
  "i < length lines \<Longrightarrow> detectHeader lines i cur = Some f \<Longrightarrow>
   bc + Count (lines ! i) (CHR ''{'') - Count (lines ! i) (CHR ''}'') = 0 \<Longrightarrow>
   Contains (lines ! i) ''}'' \<Longrightarrow>
   extractLoop lines i fns cur bc =
     extractLoop lines (i + 1) (fns @ [f\<lparr>EndLine := int i + 1\<rparr>]) None 0"
  by (subst extractLoop.simps) (simp add: Let_def)

lemma extractLoop_open:
  "i < length lines \<Longrightarrow> detectHeader lines i cur = Some f \<Longrightarrow>
   \<not> (bc + Count (lines ! i) (CHR ''{'') - Count (lines ! i) (CHR ''}'') = 0 \<and>
      Contains (lines ! i) ''}'') \<Longrightarrow>
   extractLoop lines i fns cur bc =
     extractLoop lines (i + 1) fns (Some f)
       (bc + Count (lines ! i) (CHR ''{'') - Count (lines ! i) (CHR ''}''))"
  by (subst extractLoop.simps) (auto simp: Let_def)


lemma extractLoop_invariant:
  assumes "\<forall>f\<in>set fns. P f"
    and "\<forall>f. currentFunc = Some f \<longrightarrow> P f"
    and "\<And>i cur f. i < length lines \<Longrightarrow> detectHeader lines i cur = Some f \<Longrightarrow>
                 (\<forall>g. cur = Some g \<longrightarrow> P g) \<Longrightarrow> P f"
    and "\<And>f n. P f \<Longrightarrow> P (f\<lparr>EndLine := n\<rparr>)"
  shows "\<forall>f\<in>set (extractLoop lines i fns currentFunc braceCount). P f"
  using assms
proof (induction lines i fns currentFunc braceCount rule: extractLoop.induct)
  case (1 lines i fns currentFunc braceCount)
  note step = "1.prems"(3) and endline = "1.prems"(4)
  show ?case
  proof (cases "i < length lines")
    case False
    from "1.prems"(1) show ?thesis unfolding extractLoop_end [OF False] .
  next
    case True
    let ?cur = "detectHeader lines i currentFunc"
    let ?bc = "braceCount + Count (lines ! i) (CHR ''{'') - Count (lines ! i) (CHR ''}'')"
    have cur: "\<And>f. ?cur = Some f \<Longrightarrow> P f"
      using step [OF True] "1.prems"(2) by blast
    show ?thesis
    proof (cases ?cur)
      case None
      have "\<forall>f\<in>set (extractLoop lines (i + 1) fns ?cur ?bc). P f"
      proof (rule "1.IH"(1) [OF True refl refl refl None "1.prems"(1) _ step endline])
        show "\<forall>f. ?cur = Some f \<longrightarrow> P f" using None by simp
      qed
      then show ?thesis
        unfolding extractLoop_None [OF True None] None .
    next
      case (Some f)
      show ?thesis
      proof (cases "?bc = 0 \<and> Contains (lines ! i) ''}''")
        case closing: True
        have "\<forall>g\<in>set (extractLoop lines (i + 1) (fns @ [f\<lparr>EndLine := int i + 1\<rparr>]) None ?bc). P g"
        proof (rule "1.IH"(2) [OF True refl refl refl Some closing _ _ step endline])
          show "\<forall>g\<in>set (fns @ [f\<lparr>EndLine := int i + 1\<rparr>]). P g"
            using "1.prems"(1) cur [OF Some] endline by simp
          show "\<forall>f. None = Some f \<longrightarrow> P f" by simp
        qed
        then show ?thesis
          using closing extractLoop_close [OF True Some, of braceCount fns] by simp
      next
        case opened: False
        have "\<forall>g\<in>set (extractLoop lines (i + 1) fns ?cur ?bc). P g"
        proof (rule "1.IH"(3) [OF True refl refl refl Some opened "1.prems"(1) _ step endline])
          show "\<forall>f. ?cur = Some f \<longrightarrow> P f" using cur by blast
        qed
        then show ?thesis
          unfolding extractLoop_open [OF True Some opened] Some .
      qed
    qed
  qed
qed

lemma extractFunctions_param_count:
  assumes "f \<in> set (extractFunctions lines)"
  shows "\<exists>i<length lines. StartLine f = int i + 1 \<and>
           ParamCount f = specParamCount (firstParenText (TrimSpace (lines ! i)))"
proof -
  let ?P = "\<lambda>f. \<exists>i<length lines. StartLine f = int i + 1 \<and>
           ParamCount f = specParamCount (firstParenText (TrimSpace (lines ! i)))"
  have "\<forall>f\<in>set (extractLoop lines 0 [] None 0). ?P f"
  proof (rule extractLoop_invariant)
    fix i cur f
    assume "i < length lines" "detectHeader lines i cur = Some f" "\<forall>g. cur = Some g \<longrightarrow> ?P g"
    then show "?P f" using detectHeader_cases [of lines i cur f] by auto
  qed simp_all
  with assms show ?thesis by (simp add: extractFunctions_def)
qed

lemmas strings_eval = HasPrefix_def Index_def Fields_def TrimLeft_def Count_def

lemmas extract_eval = extractFunctions_def extractLoop.simps detectHeader_def Let_def

text \<open>
  Claim C7 (amended). For every list of lines, every function that function extraction
  returns starts at a line whose header gives its \<open>ParamCount\<close>: the number of pieces
  obtained by splitting on commas the text between the first opening parenthesis of the
  trimmed header line and the first closing parenthesis after it, where a parameter list
  of white space only or \<open>void\<close> counts as zero parameters. A function with such a
  parameter list is still recognized. Nothing is said of a header whose parentheses
  enclose no character at all.
\<close>

theorem extractFunctions_counts_parameters:
  "(\<forall>f\<in>set (extractFunctions lines).
      \<exists>i<length lines. StartLine f = int i + 1 \<and>
        ParamCount f = specParamCount (firstParenText (TrimSpace (lines ! i))))
   \<and> extractFunctions [''void my_function(void)'', ''{'', ''}''] =
       [\<lparr>Name = ''my_function'', StartLine = 1, EndLine = 3, ParamCount = 0\<rparr>]
   \<and> extractFunctions [''int f( )'', ''{'', ''}''] =
       [\<lparr>Name = ''f'', StartLine = 1, EndLine = 3, ParamCount = 0\<rparr>]"
proof -
  have a: "extractFunctions [''void my_function(void)'', ''{'', ''}''] =
       [\<lparr>Name = ''my_function'', StartLine = 1, EndLine = 3, ParamCount = 0\<rparr>]"
    by (simp add: extract_eval strings_eval trim_eval)
  have b: "extractFunctions [''int f( )'', ''{'', ''}''] =
       [\<lparr>Name = ''f'', StartLine = 1, EndLine = 3, ParamCount = 0\<rparr>]"
    by (simp add: extract_eval strings_eval trim_eval)
  show ?thesis
    using extractFunctions_param_count [of _ lines] a b by blast
qed

theorem extractFunctions_counts_parameters_witness:
  "\<lparr>Name = ''add'', StartLine = 1, EndLine = 4, ParamCount = 4\<rparr>
     \<in> set (extractFunctions [''int add(int a, int b, int c, int d)'', ''{'', ''return a;'', ''}''])
   \<and> specParamCount (firstParenText (TrimSpace ''int add(int a, int b, int c, int d)'')) = 4"
proof -
  let ?lines = "[''int add(int a, int b, int c, int d)'', ''{'', ''return a;'', ''}'']"
  let ?f = "\<lparr>Name = ''add'', StartLine = 1, EndLine = 4, ParamCount = 4\<rparr>"
  have e: "extractFunctions ?lines = [?f]"
    by (simp add: extract_eval strings_eval trim_eval)
  then have m: "?f \<in> set (extractFunctions ?lines)" by simp
  with extractFunctions_counts_parameters [of ?lines] obtain i where
    i: "StartLine ?f = int i + 1"
       "ParamCount ?f = specParamCount (firstParenText (TrimSpace (?lines ! i)))"
    by blast
  from i(1) have "i = 0" by simp
  with i(2) have "specParamCount (firstParenText (TrimSpace ''int add(int a, int b, int c, int d)'')) = 4"
    by simp
  with m show ?thesis by blast
qed

text \<open>
  The claim as stated counts the pieces of the text between the outermost parentheses.
  For a header with a parameter of function-pointer type that text has two pieces, and
  the extracted function has \<open>ParamCount\<close> 1: the text of the program ends at the first
  closing parenthesis.
\<close>

theorem extractFunctions_counterexample:
  "extractFunctions [''int apply(int (*fn)(int), int x)'', ''{'', ''}''] =
     [\<lparr>Name = ''apply'', StartLine = 1, EndLine = 3, ParamCount = 1\<rparr>]
   \<and> specParamCount (outermostParenText ''int apply(int (*fn)(int), int x)'') = 2"
  by (simp add: extract_eval strings_eval trim_eval specParamCount_def outermostParenText_def)

text \<open>A header with nothing between its parentheses: \<open>closeParenPos\<close> is 0, the test
  \<open>closeParenPos > 0\<close> fails and no function is recorded.\<close>

lemma extractFunctions_empty_parens:
  "extractFunctions [''int f()'', ''{'', ''}''] = []"
  by (simp add: extract_eval strings_eval trim_eval)

subsection \<open>Analysis of a list of files\<close>

lemma AnalyzeFile_unreadable: "\<not> readable fs file \<Longrightarrow> \<exists>e. AnalyzeFile a file fs = Inl e"
  by (simp add: AnalyzeFile_def readable_def)

lemma AnalyzeFile_readable: "readable fs file \<Longrightarrow> AnalyzeFile a file fs = Inr (resultOf a fs file)"
  by (auto simp: AnalyzeFile_def readable_def resultOf_def Let_def)

lemma analyzeLoop_Cons:
  "analyzeLoop a fs (file # rest) report =
     (if readable fs file then
        analyzeLoop a fs rest
          (report\<lparr>Files := Files report @ [resultOf a fs file],
                  TotalFiles := TotalFiles report + 1,
                  TotalLines := TotalLines report + LineCount (resultOf a fs file),
                  TotalViolations := TotalViolations report +
                    int (length (Violations (resultOf a fs file))),
                  CleanFiles := (if length (Violations (resultOf a fs file)) = 0
                                 then CleanFiles report + 1 else CleanFiles report)\<rparr>)
      else analyzeLoop a fs rest report)"
proof (cases "readable fs file")
  case True
  then show ?thesis by (simp add: AnalyzeFile_readable)
next
  case False
  then obtain e where "AnalyzeFile a file fs = Inl e" using AnalyzeFile_unreadable by blast
  with False show ?thesis by simp
qed

lemma analyzeLoop_filter:
  "analyzeLoop a fs files report = analyzeLoop a fs (filter (readable fs) files) report"
  by (induction files arbitrary: report) (simp_all add: analyzeLoop_Cons del: analyzeLoop.simps(2))

lemma analyzeLoop_append:
  "analyzeLoop a fs (xs @ ys) report = analyzeLoop a fs ys (analyzeLoop a fs xs report)"
  by (induction xs arbitrary: report) (simp_all add: analyzeLoop_Cons del: analyzeLoop.simps(2))

lemma analyzeLoop_sums:
  "analyzeLoop a fs files report =
     report\<lparr>Files := Files report @ map (resultOf a fs) (filter (readable fs) files),
            TotalFiles := TotalFiles report + int (length (filter (readable fs) files)),
            TotalLines := TotalLines report +
              (\<Sum>f\<leftarrow>filter (readable fs) files. LineCount (resultOf a fs f)),
            TotalViolations := TotalViolations report +
              (\<Sum>f\<leftarrow>filter (readable fs) files. int (length (Violations (resultOf a fs f)))),
            CleanFiles := CleanFiles report +
              int (length (filter (\<lambda>f. Violations (resultOf a fs f) = [])
                     (filter (readable fs) files)))\<rparr>"
proof (induction files arbitrary: report)
  case Nil
  show ?case by simp
next
  case (Cons path rest)
  show ?case
    by (simp add: analyzeLoop_Cons Cons.IH add.assoc del: analyzeLoop.simps(2))
qed

lemma totalScoreLoop_sum: "totalScoreLoop rs t = t + (\<Sum>r\<leftarrow>rs. Score r)"
  by (induction rs arbitrary: t) simp_all

lemma AnalyzePath_filter:
  "AnalyzePath a (Inr files) fs = AnalyzePath a (Inr (filter (readable fs) files)) fs"
  using analyzeLoop_filter [of a fs files] by (simp add: AnalyzePath_def)

lemma AnalyzePath_report:
  "\<exists>report. AnalyzePath a (Inr files) fs = Inr report \<and>
     Files report = map (resultOf a fs) (filter (readable fs) files) \<and>
     TotalFiles report = int (length (filter (readable fs) files)) \<and>
     TotalLines report = (\<Sum>f\<leftarrow>filter (readable fs) files. LineCount (resultOf a fs f)) \<and>
     TotalViolations report =
       (\<Sum>f\<leftarrow>filter (readable fs) files. int (length (Violations (resultOf a fs f)))) \<and>
     CleanFiles report =
       int (length (filter (\<lambda>f. Violations (resultOf a fs f) = []) (filter (readable fs) files))) \<and>
     TotalScore report =
       (if filter (readable fs) files = [] then 0
        else (\<Sum>f\<leftarrow>filter (readable fs) files. Score (resultOf a fs f)) /
             real (length (filter (readable fs) files)))"
  by (simp add: AnalyzePath_def analyzeLoop_sums totalScoreLoop_sum Let_def comp_def)

text \<open>
  Claim C9. While a collected list of files is analysed, a file whose read fails is
  passed over and the analysis goes on with the files after it: the report is the
  report of the list without that file, whatever stands before and after it. The files
  of the report, \<open>TotalFiles\<close>, \<open>TotalLines\<close>, \<open>TotalViolations\<close>,
  \<open>CleanFiles\<close> and the mean of the scores are computed from the readable files
  alone.
\<close>

theorem AnalyzePath_skips_unreadable:
  "AnalyzePath a (Inr files) fs = AnalyzePath a (Inr (filter (readable fs) files)) fs
   \<and> (\<not> readable fs file \<longrightarrow>
        AnalyzePath a (Inr (pre @ file # post)) fs = AnalyzePath a (Inr (pre @ post)) fs)
   \<and> (\<exists>report. AnalyzePath a (Inr files) fs = Inr report \<and>
        Files report = map (resultOf a fs) (filter (readable fs) files) \<and>
        TotalFiles report = int (length (filter (readable fs) files)) \<and>
        TotalLines report = (\<Sum>f\<leftarrow>filter (readable fs) files. LineCount (resultOf a fs f)) \<and>
        TotalViolations report =
          (\<Sum>f\<leftarrow>filter (readable fs) files. int (length (Violations (resultOf a fs f)))) \<and>
        CleanFiles report =
          int (length (filter (\<lambda>f. Violations (resultOf a fs f) = [])
                 (filter (readable fs) files))) \<and>
        TotalScore report =
          (if filter (readable fs) files = [] then 0
           else (\<Sum>f\<leftarrow>filter (readable fs) files. Score (resultOf a fs f)) /
                real (length (filter (readable fs) files))))"
proof -
  have skip: "\<not> readable fs file \<longrightarrow>
        AnalyzePath a (Inr (pre @ file # post)) fs = AnalyzePath a (Inr (pre @ post)) fs"
  proof
    assume "\<not> readable fs file"
    then have "filter (readable fs) (pre @ file # post) = filter (readable fs) (pre @ post)"
      by simp
    then show "AnalyzePath a (Inr (pre @ file # post)) fs = AnalyzePath a (Inr (pre @ post)) fs"
      using AnalyzePath_filter [of a "pre @ file # post" fs] AnalyzePath_filter [of a "pre @ post" fs]
      by simp
  qed
  show ?thesis
    using AnalyzePath_filter [of a files fs] skip AnalyzePath_report [of a files fs] by blast
qed

theorem AnalyzePath_skips_unreadable_witness:
  "\<not> readable fs0 ''src/b.c''
   \<and> AnalyzePath (NewAnalyzer 1) (Inr [''src/b.c'', ''src/a.c'']) fs0 =
       AnalyzePath (NewAnalyzer 1) (Inr [''src/a.c'']) fs0
   \<and> (\<exists>report. AnalyzePath (NewAnalyzer 1) (Inr [''src/b.c'', ''src/a.c'']) fs0 = Inr report \<and>
         TotalFiles report = 1 \<and>
         Files report = [resultOf (NewAnalyzer 1) fs0 ''src/a.c''])"
proof -
  have a: "\<not> readable fs0 ''src/b.c''" and b: "readable fs0 ''src/a.c''"
    by (simp_all add: readable_def fs0_def)
  then have f: "filter (readable fs0) [''src/b.c'', ''src/a.c''] = [''src/a.c'']" by simp
  note inst = AnalyzePath_skips_unreadable [of "NewAnalyzer 1" "[''src/b.c'', ''src/a.c'']" fs0
      "''src/b.c''" "[]" "[''src/a.c'']"]
  have skip:
    "AnalyzePath (NewAnalyzer 1) (Inr [''src/b.c'', ''src/a.c'']) fs0 =
       AnalyzePath (NewAnalyzer 1) (Inr [''src/a.c'']) fs0"
    using inst a unfolding append_Nil by blast
  from inst obtain report where
    "AnalyzePath (NewAnalyzer 1) (Inr [''src/b.c'', ''src/a.c'']) fs0 = Inr report"
    "Files report = map (resultOf (NewAnalyzer 1) fs0) (filter (readable fs0) [''src/b.c'', ''src/a.c''])"
    "TotalFiles report = int (length (filter (readable fs0) [''src/b.c'', ''src/a.c'']))"
    by blast
  then have "AnalyzePath (NewAnalyzer 1) (Inr [''src/b.c'', ''src/a.c'']) fs0 = Inr report \<and>
         TotalFiles report = 1 \<and> Files report = [resultOf (NewAnalyzer 1) fs0 ''src/a.c'']"
    unfolding f by simp
  with a skip show ?thesis by blast
qed

subsection \<open>Dry run\<close>

lemma FixFile_dry_state: "snd (FixFile env True filename fs) = fs"
  by (simp add: FixFile_def Let_def split: option.splits prod.splits)

lemma FixFile_modes:
  assumes "readFile fs filename = Some content"
  shows "\<exists>rd. FixFile env True filename fs = (Inr rd, fs) \<and>
           (\<forall>rn fs'. FixFile env False filename fs = (Inr rn, fs') \<longrightarrow>
              Fixes rn = Fixes rd \<and> NewFilename rn = NewFilename rd \<and>
              FixedLines rn = FixedLines rd) \<and>
           (\<forall>e fs'. FixFile env False filename fs = (Inl e, fs') \<longrightarrow> \<not> writable fs filename)"
  using assms
  by (auto simp: FixFile_def Let_def osWriteFile_def split: prod.splits if_splits)

lemma runFixerLoop_dry_state:
  "snd (runFixerLoop env True files totalFixes filesModified fs) = fs"
proof (induction files arbitrary: totalFixes filesModified)
  case Nil
  show ?case by simp
next
  case (Cons path rest)
  obtain res where "FixFile env True path fs = (res, fs)"
    using FixFile_dry_state [of env path fs] by (cases "FixFile env True path fs") simp
  then show ?case
    using Cons.IH by (cases res) (simp_all add: Let_def)
qed

lemmas regex_eval =
  varDeclMatch_def forDeclSubmatch_def forHead_def forDeclaration_def forInit_def
  declarators.simps readIdent_def reSpace_def identStart_def
  identChar_def inRange_def indentOf_def

lemmas pipeline_eval =
  applyFixes_def fixIndentation_def fixMultipleVariableDeclarations_def fixCommentFormat_def
  fixForLoopDeclarations_def Itoa_def digits.simps TrimSuffix_def HasSuffix_def TrimRight_def

lemmas FixFile_eval =
  FixFile_def fs1_def env1_def Let_def osWriteFile_def osRename_def shouldFixFilename_def
  fixFilename_def isSnakeCase_def Base_def Ext_def runFixer_def

text \<open>
  Claim C8. For every content of a file, \<open>FixFile\<close> in dry-run mode returns a result
  and leaves the files as they are, and whenever \<open>FixFile\<close> in non-dry-run mode
  returns a result for the same file, its list of fixes (and its new file name and number
  of fixed lines) is the one of the dry run; the only other outcome of the non-dry-run
  mode is the error of a failed write. \<open>runFixer\<close> in dry-run mode leaves the files
  as they are too: it calls neither \<open>os.WriteFile\<close> nor \<open>os.Rename\<close>.
\<close>

theorem dry_run_same_fixes_no_effect:
  "(readFile fs filename = Some content \<longrightarrow>
      (\<exists>rd. FixFile env True filename fs = (Inr rd, fs) \<and>
         (\<forall>rn fs'. FixFile env False filename fs = (Inr rn, fs') \<longrightarrow>
            Fixes rn = Fixes rd \<and> NewFilename rn = NewFilename rd \<and>
            FixedLines rn = FixedLines rd) \<and>
         (\<forall>e fs'. FixFile env False filename fs = (Inl e, fs') \<longrightarrow> \<not> writable fs filename)))
   \<and> snd (FixFile env True filename fs) = fs
   \<and> snd (runFixer env True collected fs) = fs
   \<and> calls (snd (runFixer env True collected fs)) = calls fs"
proof -
  have "snd (runFixer env True collected fs) = fs"
    by (simp add: runFixer_def runFixerLoop_dry_state split: sum.splits)
  then show ?thesis
    using FixFile_modes [of fs filename content env] FixFile_dry_state [of env filename fs]
    by simp
qed

theorem dry_run_same_fixes_no_effect_witness:
  "readFile fs1 ''src/MyFile.c'' = Some ''    int x, y;''
   \<and> (\<exists>rd rn fs'. FixFile env1 True ''src/MyFile.c'' fs1 = (Inr rd, fs1) \<and>
         FixFile env1 False ''src/MyFile.c'' fs1 = (Inr rn, fs') \<and>
         Fixes rn = Fixes rd \<and> map FixRule (Fixes rn) = [''C-L3'', ''C-L4'', ''C-O1''])
   \<and> runFixer env1 True (Inr [''src/MyFile.c'']) fs1 = (None, fs1)
   \<and> calls (snd (runFixer env1 False (Inr [''src/MyFile.c'']) fs1)) =
       [WriteFileCall ''src/MyFile.c'' ([CHR 0x09] @ ''int x;'' @ [CHR 0x0A, CHR 0x09] @ ''int y;''),
        RenameCall ''src/MyFile.c'' ''src/my_file.c'']"
proof -
  let ?rn = "\<lparr>FixFilename = ''MyFile.c'', OriginalLines = 1, FixedLines = 2,
     Fixes = [\<lparr>FixRule = ''C-L3'', FixDescription = ''Replaced 4 spaces with 1 tabs'', FixLine = 1\<rparr>,
              \<lparr>FixRule = ''C-L4'', FixDescription = ''Split multiple variable declarations into 2 lines'', FixLine = 1\<rparr>,
              \<lparr>FixRule = ''C-O1'', FixDescription = ''Rename file to my_file.c'', FixLine = 0\<rparr>],
     ModifiedContent = True, NewFilename = ''src/my_file.c''\<rparr>"
  have r: "readFile fs1 ''src/MyFile.c'' = Some ''    int x, y;''"
    by (simp add: fs1_def)
  have "fst (FixFile env1 False ''src/MyFile.c'' fs1) = Inr ?rn"
    by (simp add: FixFile_eval pipeline_eval regex_eval fixEmptyLines_eval strings_eval trim_eval)
  then obtain fs' where n: "FixFile env1 False ''src/MyFile.c'' fs1 = (Inr ?rn, fs')"
    by (cases "FixFile env1 False ''src/MyFile.c'' fs1") simp
  note inst = dry_run_same_fixes_no_effect
    [of fs1 "''src/MyFile.c''" "''    int x, y;''" env1 "Inr [''src/MyFile.c'']"]
  from inst r obtain rd where d: "FixFile env1 True ''src/MyFile.c'' fs1 = (Inr rd, fs1)"
    and same: "\<forall>rn fs'. FixFile env1 False ''src/MyFile.c'' fs1 = (Inr rn, fs') \<longrightarrow>
                 Fixes rn = Fixes rd \<and> NewFilename rn = NewFilename rd \<and>
                 FixedLines rn = FixedLines rd"
    by blast
  from same n have eq: "Fixes ?rn = Fixes rd" by blast
  have "FixFile env1 True ''src/MyFile.c'' fs1 = (Inr rd, fs1) \<and>
         FixFile env1 False ''src/MyFile.c'' fs1 = (Inr ?rn, fs') \<and>
         Fixes ?rn = Fixes rd \<and> map FixRule (Fixes ?rn) = [''C-L3'', ''C-L4'', ''C-O1'']"
    using d n eq [symmetric] by simp
  then have a: "\<exists>rd rn fs'. FixFile env1 True ''src/MyFile.c'' fs1 = (Inr rd, fs1) \<and>
         FixFile env1 False ''src/MyFile.c'' fs1 = (Inr rn, fs') \<and>
         Fixes rn = Fixes rd \<and> map FixRule (Fixes rn) = [''C-L3'', ''C-L4'', ''C-O1'']"
    by - (rule exI, rule exI, rule exI, assumption)
  from inst have "snd (runFixer env1 True (Inr [''src/MyFile.c'']) fs1) = fs1" by blast
  moreover have "fst (runFixer env1 True (Inr [''src/MyFile.c'']) fs1) = None"
    by (simp add: runFixer_def)
  ultimately have b: "runFixer env1 True (Inr [''src/MyFile.c'']) fs1 = (None, fs1)"
    by (metis prod.collapse)
  have c: "calls (snd (runFixer env1 False (Inr [''src/MyFile.c'']) fs1)) =
       [WriteFileCall ''src/MyFile.c'' ([CHR 0x09] @ ''int x;'' @ [CHR 0x0A, CHR 0x09] @ ''int y;''),
        RenameCall ''src/MyFile.c'' ''src/my_file.c'']"
    by (simp add: FixFile_eval pipeline_eval regex_eval fixEmptyLines_eval strings_eval trim_eval)
  from r a b c show ?thesis by blast
qed

end
